theory Spec2Isabelle
  imports Complex_Main "HOL-Library.Sublist"
begin

section \<open>CamGuard: severity model, safety guard, planner fallback, incident operations\<close>

text \<open>
  A shallow embedding of the deterministic core of the CamGuard backend
  (core/severity.py, core/guard.py, core/planner.py, core/executor.py, core/idle.py,
  api/incidents.py, api/twilio.py). Python's unbounded \<open>int\<close> is \<^typ>\<open>int\<close>.
  Python's \<open>float\<close> is \<^typ>\<open>real\<close>: the functions below only compare floats
  with constants, add constants to them and clamp them, and rounding is not modelled.
  A \<open>dict\<close> is a map, an ORM table is a list of rows, process-wide module state is
  passed explicitly and returned updated, and an exception is the \<open>Inl\<close> of a sum.
\<close>

subsection \<open>core/severity.py\<close>

text \<open>\<open>compute_severity\<close>, statement by statement: an \<open>if/elif/elif\<close> chain on
  \<open>time_down_s\<close>, three independent \<open>if\<close>s, and the final clamp.\<close>

definition compute_severity :: "int \<Rightarrow> real \<Rightarrow> real \<Rightarrow> real \<Rightarrow> bool \<Rightarrow> int" where
  "compute_severity severity_seed time_down_s stillness_score motion_energy acknowledged =
     (let sev = severity_seed;
          sev = (if time_down_s > 120 then max sev 5
                 else if time_down_s > 45 then max sev 4
                 else if time_down_s > 15 then max sev 3
                 else sev);
          sev = (if stillness_score > 0.9 \<and> time_down_s > 30 then min (sev + 1) 5 else sev);
          sev = (if motion_energy > 0.5 \<and> stillness_score < 0.3 then max (sev - 1) 1 else sev);
          sev = (if acknowledged then max (sev - 1) 1 else sev)
      in max 1 (min 5 sev))"

text \<open>The reference computation of the specification, following its words: three
  successive raises, the stillness bonus capped at 5, the recovery malus floored at 1,
  a plain subtraction on acknowledgement, and the clamp.\<close>

definition severity_reference :: "int \<Rightarrow> real \<Rightarrow> real \<Rightarrow> real \<Rightarrow> bool \<Rightarrow> int" where
  "severity_reference seed t_down_s stillness motion acked =
     (let s = seed;
          s = (if t_down_s > 15 then max s 3 else s);
          s = (if t_down_s > 45 then max s 4 else s);
          s = (if t_down_s > 120 then max s 5 else s);
          s = (if stillness > 0.9 \<and> t_down_s > 30 then min 5 (s + 1) else s);
          s = (if motion > 0.5 \<and> stillness < 0.3 then max 1 (s - 1) else s);
          s = (if acked then s - 1 else s)
      in max 1 (min 5 s))"

text \<open>\<open>compute_risk_score\<close>: the dict literal \<open>bed_state_scores\<close> with
  \<open>.get(bed_state, 0.1)\<close>, the \<open>if/elif\<close> on stability, the night window and
  the clamp.\<close>

definition bed_state_scores :: "string \<rightharpoonup> real" where
  "bed_state_scores = map_of
     [(''IN_BED'', 0.0),
      (''NEAR_EDGE'', 0.2),
      (''SITTING_EDGE'', 0.4),
      (''LEGS_OVER'', 0.6),
      (''STANDING_NEAR_BED'', 0.3),
      (''OUT_OF_BED'', 0.1),
      (''UNKNOWN'', 0.15)]"

definition compute_risk_score :: "string \<Rightarrow> string \<Rightarrow> int \<Rightarrow> real \<Rightarrow> real" where
  "compute_risk_score bed_state stability hour_of_day base_score =
     (let score = base_score;
          score = score + (case bed_state_scores bed_state of Some v \<Rightarrow> v | None \<Rightarrow> 0.1);
          score = (if stability = ''UNSTABLE'' then score + 0.25
                   else if stability = ''UNKNOWN'' then score + 0.1
                   else score);
          score = (if 22 \<le> hour_of_day \<or> hour_of_day \<le> 5 then score + 0.1 else score)
      in max 0.0 (min 1.0 score))"

text \<open>The seven bed states the dict lists.\<close>

definition listed_bed_states :: "string list" where
  "listed_bed_states =
     [''IN_BED'', ''NEAR_EDGE'', ''SITTING_EDGE'', ''LEGS_OVER'', ''STANDING_NEAR_BED'',
      ''OUT_OF_BED'', ''UNKNOWN'']"

subsection \<open>schemas.py\<close>

text \<open>The enums \<open>ActionType\<close> and \<open>Verdict\<close> (both \<open>str, Enum\<close>) with their
  \<open>.value\<close> strings, and the pydantic models \<open>PlanAction\<close> and \<open>PlannerPlan\<close>.
  JSON values (the entries of \<open>params\<close> and of a camera's \<open>config\<close>) are a small
  datatype.\<close>

datatype ActionType =
    INCREASE_CHECK_RATE
  | SEND_LOW_PRIORITY_HEADSUP
  | SEND_SMS_PRIMARY
  | START_VOICE_CALL_PRIMARY
  | ESCALATE_TO_BACKUP
  | CANCEL_ESCALATION
  | CLOSE_INCIDENT
  | REQUEST_STRONG_VERIFY

fun ActionType_value :: "ActionType \<Rightarrow> string" where
  "ActionType_value INCREASE_CHECK_RATE = ''INCREASE_CHECK_RATE''"
| "ActionType_value SEND_LOW_PRIORITY_HEADSUP = ''SEND_LOW_PRIORITY_HEADSUP''"
| "ActionType_value SEND_SMS_PRIMARY = ''SEND_SMS_PRIMARY''"
| "ActionType_value START_VOICE_CALL_PRIMARY = ''START_VOICE_CALL_PRIMARY''"
| "ActionType_value ESCALATE_TO_BACKUP = ''ESCALATE_TO_BACKUP''"
| "ActionType_value CANCEL_ESCALATION = ''CANCEL_ESCALATION''"
| "ActionType_value CLOSE_INCIDENT = ''CLOSE_INCIDENT''"
| "ActionType_value REQUEST_STRONG_VERIFY = ''REQUEST_STRONG_VERIFY''"

datatype Verdict = NO_INCIDENT | POSSIBLE_FALL | CONFIRMED_FALL | FALSE_ALARM

fun Verdict_value :: "Verdict \<Rightarrow> string" where
  "Verdict_value NO_INCIDENT = ''NO_INCIDENT''"
| "Verdict_value POSSIBLE_FALL = ''POSSIBLE_FALL''"
| "Verdict_value CONFIRMED_FALL = ''CONFIRMED_FALL''"
| "Verdict_value FALSE_ALARM = ''FALSE_ALARM''"

datatype json_value = JInt int | JFloat real | JStr string | JBool bool | JNull

record PlanAction =
  type :: ActionType
  delay_s :: real
  params :: "string \<rightharpoonup> json_value"

record PlannerPlan =
  verdict :: Verdict
  severity_seed :: int
  confidence :: real
  reasons :: "string list"
  actions :: "PlanAction list"
  replan_interval_s :: real

text \<open>Python's \<open>str\<close> of an integer, as the f-strings of the guard render its limits.\<close>

definition digit_char :: "nat \<Rightarrow> char" where
  "digit_char d =
     (if d = 0 then CHR ''0'' else if d = 1 then CHR ''1'' else if d = 2 then CHR ''2''
      else if d = 3 then CHR ''3'' else if d = 4 then CHR ''4'' else if d = 5 then CHR ''5''
      else if d = 6 then CHR ''6'' else if d = 7 then CHR ''7'' else if d = 8 then CHR ''8''
      else CHR ''9'')"

fun str_nat :: "nat \<Rightarrow> string" where
  "str_nat n = (if n < 10 then [digit_char n] else str_nat (n div 10) @ [digit_char (n mod 10)])"

definition str_int :: "int \<Rightarrow> string" where
  "str_int i = (if i < 0 then CHR ''-'' # str_nat (nat (- i)) else str_nat (nat i))"

subsection \<open>core/guard.py\<close>

text \<open>The two module-level dicts \<open>_last_contact_time\<close> and \<open>_primary_call_counts\<close>
  are the guard's state; every function that touches them takes the state and returns
  it updated.\<close>

record guard_state =
  last_contact_time :: "string \<rightharpoonup> real"
  primary_call_counts :: "string \<rightharpoonup> int"

definition reset_camera_state :: "guard_state \<Rightarrow> string \<Rightarrow> guard_state" where
  "reset_camera_state g camera_id =
     g\<lparr>last_contact_time := (last_contact_time g)(camera_id := None),
       primary_call_counts := (primary_call_counts g)(camera_id := None)\<rparr>"

text \<open>The arguments of \<open>approve_plan\<close> other than the action list, in the order of its
  signature; the last three default to 5, 2 and 2.\<close>

record guard_call =
  camera_id :: string
  acknowledged :: bool
  voice_enabled :: bool
  sms_enabled :: bool
  escalation_stage :: int
  cooldown_contact_s :: int
  max_primary_call_attempts :: int
  max_escalation_stage :: int

record decision =
  action :: string
  approved :: bool
  reason :: string

text \<open>The body of the \<open>for\<close> loop of \<open>approve_plan\<close> for one action: the decision it
  appends and the state it leaves. The branches are those of the source in its order; each
  rejecting branch ends in \<open>continue\<close>, and only the fall-through at the end writes
  the two dicts. \<open>now\<close> is the value of \<open>time.time()\<close> read once per call. The dash of
  the acknowledgement reason is U+2013, written as its three UTF-8 bytes.\<close>

definition guard_action ::
  "guard_call \<Rightarrow> real \<Rightarrow> guard_state \<Rightarrow> PlanAction \<Rightarrow> guard_state \<times> decision" where
  "guard_action c now g a =
     (let decision = \<lparr>action = ActionType_value (type a), approved = True, reason = ''''\<rparr>
      in
      if type a = CLOSE_INCIDENT then (g, decision)
      else if type a = CANCEL_ESCALATION then (g, decision)
      else if type a \<in> {SEND_SMS_PRIMARY, START_VOICE_CALL_PRIMARY, SEND_LOW_PRIORITY_HEADSUP}
              \<and> now - (case last_contact_time g (camera_id c) of None \<Rightarrow> 0 | Some t \<Rightarrow> t)
                    < real_of_int (cooldown_contact_s c)
        then (g, decision\<lparr>approved := False,
                reason := ''Contact cooldown: '' @ str_int (cooldown_contact_s c) @ ''s not elapsed''\<rparr>)
      else if type a = START_VOICE_CALL_PRIMARY \<and> \<not> voice_enabled c
        then (g, decision\<lparr>approved := False, reason := ''Voice disabled for this camera''\<rparr>)
      else if type a = START_VOICE_CALL_PRIMARY
              \<and> (case primary_call_counts g (camera_id c) of None \<Rightarrow> 0 | Some n \<Rightarrow> n)
                    \<ge> max_primary_call_attempts c
        then (g, decision\<lparr>approved := False,
                reason := ''Max primary call attempts ('' @ str_int (max_primary_call_attempts c)
                          @ '') reached''\<rparr>)
      else if type a = SEND_SMS_PRIMARY \<and> \<not> sms_enabled c
        then (g, decision\<lparr>approved := False, reason := ''SMS disabled for this camera''\<rparr>)
      else if type a = ESCALATE_TO_BACKUP \<and> acknowledged c
        then (g, decision\<lparr>approved := False,
                reason := ''Already acknowledged '' @ [CHR 0xE2, CHR 0x80, CHR 0x93]
                          @ '' no backup escalation''\<rparr>)
      else if type a = ESCALATE_TO_BACKUP \<and> escalation_stage c \<ge> max_escalation_stage c
        then (g, decision\<lparr>approved := False,
                reason := ''Max escalation stage ('' @ str_int (max_escalation_stage c)
                          @ '') reached''\<rparr>)
      else
        (let g = (if type a \<in> {SEND_SMS_PRIMARY, START_VOICE_CALL_PRIMARY,
                                SEND_LOW_PRIORITY_HEADSUP, ESCALATE_TO_BACKUP}
                  then g\<lparr>last_contact_time := (last_contact_time g)(camera_id c \<mapsto> now)\<rparr>
                  else g);
             g = (if type a = START_VOICE_CALL_PRIMARY
                  then g\<lparr>primary_call_counts := (primary_call_counts g)(camera_id c \<mapsto>
                          (case primary_call_counts g (camera_id c) of None \<Rightarrow> 0 | Some n \<Rightarrow> n) + 1)\<rparr>
                  else g)
         in (g, decision)))"

text \<open>The loop of \<open>approve_plan\<close> with its two accumulators \<open>approved\<close> and
  \<open>decisions\<close>: every branch appends its decision, and exactly the branches that leave
  \<open>decision["approved"]\<close> true append the action to \<open>approved\<close>.\<close>

fun approve_loop ::
  "guard_call \<Rightarrow> real \<Rightarrow> PlanAction list \<Rightarrow> guard_state \<Rightarrow> PlanAction list \<Rightarrow> decision list
     \<Rightarrow> guard_state \<times> PlanAction list \<times> decision list" where
  "approve_loop c now [] g apprvd decisions = (g, apprvd, decisions)"
| "approve_loop c now (a # rest) g apprvd decisions =
     (case guard_action c now g a of
        (g', d) \<Rightarrow>
          approve_loop c now rest g'
            (if approved d then apprvd @ [a] else apprvd) (decisions @ [d]))"

definition approve_plan ::
  "guard_state \<Rightarrow> real \<Rightarrow> PlanAction list \<Rightarrow> guard_call
     \<Rightarrow> guard_state \<times> PlanAction list \<times> decision list" where
  "approve_plan g now acts c = approve_loop c now acts g [] []"

text \<open>The rules of the specification, read per action type against the state the
  guard has when it reaches the action. The specification names no rule for
  \<open>INCREASE_CHECK_RATE\<close> and \<open>REQUEST_STRONG_VERIFY\<close>; nothing rejects them.\<close>

definition cooled_down :: "guard_call \<Rightarrow> real \<Rightarrow> guard_state \<Rightarrow> bool" where
  "cooled_down c now g =
     (now - (case last_contact_time g (camera_id c) of None \<Rightarrow> 0 | Some t \<Rightarrow> t)
        \<ge> real_of_int (cooldown_contact_s c))"

fun rule_allows :: "guard_call \<Rightarrow> real \<Rightarrow> guard_state \<Rightarrow> ActionType \<Rightarrow> bool" where
  "rule_allows c now g CLOSE_INCIDENT = True"
| "rule_allows c now g CANCEL_ESCALATION = True"
| "rule_allows c now g SEND_LOW_PRIORITY_HEADSUP = cooled_down c now g"
| "rule_allows c now g SEND_SMS_PRIMARY = (cooled_down c now g \<and> sms_enabled c)"
| "rule_allows c now g START_VOICE_CALL_PRIMARY =
     (cooled_down c now g \<and> voice_enabled c
      \<and> (case primary_call_counts g (camera_id c) of None \<Rightarrow> 0 | Some n \<Rightarrow> n)
            < max_primary_call_attempts c)"
| "rule_allows c now g ESCALATE_TO_BACKUP =
     (\<not> acknowledged c \<and> escalation_stage c < max_escalation_stage c)"
| "rule_allows c now g INCREASE_CHECK_RATE = True"
| "rule_allows c now g REQUEST_STRONG_VERIFY = True"

definition contact_class :: "ActionType \<Rightarrow> bool" where
  "contact_class t =
     (t = SEND_SMS_PRIMARY \<or> t = START_VOICE_CALL_PRIMARY \<or> t = SEND_LOW_PRIORITY_HEADSUP)"

definition note_approval :: "guard_call \<Rightarrow> real \<Rightarrow> guard_state \<Rightarrow> ActionType \<Rightarrow> guard_state" where
  "note_approval c now g t =
     (let g = (if contact_class t \<or> t = ESCALATE_TO_BACKUP
               then g\<lparr>last_contact_time := (last_contact_time g)(camera_id c \<mapsto> now)\<rparr> else g)
      in if t = START_VOICE_CALL_PRIMARY
         then g\<lparr>primary_call_counts := (primary_call_counts g)(camera_id c \<mapsto>
                 (case primary_call_counts g (camera_id c) of None \<Rightarrow> 0 | Some n \<Rightarrow> n) + 1)\<rparr>
         else g)"

text \<open>The guard as the specification words it: rules evaluated in list order, the state
  updated after each approval; the result is the final state and one flag per action.\<close>

fun guard_reference ::
  "guard_call \<Rightarrow> real \<Rightarrow> guard_state \<Rightarrow> PlanAction list \<Rightarrow> guard_state \<times> bool list" where
  "guard_reference c now g [] = (g, [])"
| "guard_reference c now g (a # rest) =
     (let ok = rule_allows c now g (type a);
          g' = (if ok then note_approval c now g (type a) else g)
      in case guard_reference c now g' rest of (g'', oks) \<Rightarrow> (g'', ok # oks))"

text \<open>A history of the guard's module state: calls of \<open>approve_plan\<close>, each with the
  clock reading \<open>time.time()\<close> it took, and calls of \<open>reset_camera_state\<close>. Running
  a history yields the final state and a log with one entry per decision, in evaluation
  order: the camera, the call's clock reading, the action's type and the
  \<open>approved\<close> flag; a reset leaves a marker.\<close>

datatype guard_event = Approve guard_call real "PlanAction list" | Reset string

datatype log_entry = Decided string real ActionType bool | WasReset string

fun run_guard :: "guard_state \<Rightarrow> guard_event list \<Rightarrow> guard_state \<times> log_entry list" where
  "run_guard g [] = (g, [])"
| "run_guard g (Approve c now acts # es) =
     (case approve_plan g now acts c of
        (g', apprvd, decisions) \<Rightarrow>
          (case run_guard g' es of
             (g'', ents) \<Rightarrow>
               (g'', map (\<lambda>(a, d). Decided (camera_id c) now (type a) (approved d))
                       (zip acts decisions) @ ents)))"
| "run_guard g (Reset cam # es) =
     (case run_guard (reset_camera_state g cam) es of
        (g'', ents) \<Rightarrow> (g'', WasReset cam # ents))"

fun event_times :: "guard_event list \<Rightarrow> real list" where
  "event_times [] = []"
| "event_times (Approve c now acts # es) = now # event_times es"
| "event_times (Reset cam # es) = event_times es"

fun uses_cooldown :: "int \<Rightarrow> guard_event \<Rightarrow> bool" where
  "uses_cooldown cd (Approve c now acts) = (cooldown_contact_s c = cd)"
| "uses_cooldown cd (Reset cam) = True"

text \<open>The same history action by action: each call is unrolled into one step per
  action, all with the call's arguments and clock reading.\<close>

datatype flat_event = FStep guard_call real PlanAction | FReset string

fun steps_of :: "guard_event \<Rightarrow> flat_event list" where
  "steps_of (Approve c now acts) = map (FStep c now) acts"
| "steps_of (Reset cam) = [FReset cam]"

fun run_flat :: "guard_state \<Rightarrow> flat_event list \<Rightarrow> guard_state \<times> log_entry list" where
  "run_flat g [] = (g, [])"
| "run_flat g (FStep c now a # es) =
     (case guard_action c now g a of
        (g', d) \<Rightarrow>
          (case run_flat g' es of
             (g'', ents) \<Rightarrow> (g'', Decided (camera_id c) now (type a) (approved d) # ents)))"
| "run_flat g (FReset cam # es) =
     (case run_flat (reset_camera_state g cam) es of
        (g'', ents) \<Rightarrow> (g'', WasReset cam # ents))"

text \<open>Every step uses the cooldown \<open>cd\<close>, and the clock readings never decrease,
  starting from \<open>lb\<close>.\<close>

fun flat_ok :: "int \<Rightarrow> real \<Rightarrow> flat_event list \<Rightarrow> bool" where
  "flat_ok cd lb [] = True"
| "flat_ok cd lb (FStep c now a # es) =
     (cooldown_contact_s c = cd \<and> lb \<le> now \<and> flat_ok cd now es)"
| "flat_ok cd lb (FReset cam # es) = flat_ok cd lb es"

subsection \<open>store/models.py and the session\<close>

text \<open>The ORM rows the modelled functions read or write. A field \<open>f\<close> of class
  \<open>Incident\<close> is \<open>inc_f\<close>, of \<open>Camera\<close> \<open>cam_f\<close>, of \<open>IncidentTimeline\<close>
  \<open>ev_f\<close>, of \<open>ActionLog\<close> \<open>al_f\<close>, of \<open>IncidentPlan\<close> \<open>ip_f\<close>.
  Columns that only carry values to the outside (row ids of logs, timestamps,
  \<open>language\<close>, event payloads, names) are left out; a nullable column is an option.\<close>

record Incident =
  inc_id :: string
  inc_camera_id :: string
  inc_status :: string
  inc_verdict :: string
  inc_severity_seed :: int
  inc_severity_current :: int
  inc_risk_score :: real
  inc_confidence :: real
  inc_time_down_s :: real
  inc_acknowledged :: bool
  inc_ack_by :: "string option"
  inc_escalation_stage :: int
  inc_plan_version :: int
  inc_reasons_current :: "string list option"
  inc_summary_text :: "string option"
  inc_frames_b64 :: "string list option"

record Camera =
  cam_id :: string
  cam_primary_contact :: string
  cam_backup_contact :: string
  cam_voice_enabled :: bool
  cam_sms_enabled :: bool
  cam_risk_score :: real
  cam_config :: "(string \<rightharpoonup> json_value) option"

record TimelineEvent =
  ev_incident_id :: string
  ev_camera_id :: string
  ev_kind :: string

record ActionLog =
  al_incident_id :: string
  al_camera_id :: string
  al_action_type :: string
  al_params :: "string \<rightharpoonup> json_value"
  al_result :: string

record IncidentPlan =
  ip_incident_id :: string
  ip_version :: int
  ip_model_used :: string
  ip_plan :: PlannerPlan

record ConfigUpdate =
  cu_camera_id :: string
  cu_config_json :: "string \<rightharpoonup> json_value"
  cu_applied :: bool

text \<open>Everything the handlers share: the tables, the guard's two dicts, the keys of
  \<open>_active_replan_tasks\<close>, and the requests sent to the planner so far (the frames of
  each call of \<open>gemini_client.incident_plan\<close>).\<close>

record world =
  cameras :: "Camera list"
  incidents :: "Incident list"
  incident_plans :: "IncidentPlan list"
  timeline :: "TimelineEvent list"
  action_log :: "ActionLog list"
  config_updates :: "ConfigUpdate list"
  guard :: guard_state
  active_replan_tasks :: "string set"
  planner_calls :: "string list list"

datatype error =
    HTTPException int string
  | MultipleResultsFound
  | NoResultFound
  | PlannerCallFailed string

text \<open>SQLAlchemy's \<open>scalar_one_or_none()\<close> and \<open>scalar_one()\<close> on the rows a
  \<open>select\<close> returns.\<close>

definition scalar_one_or_none :: "'a list \<Rightarrow> error + 'a option" where
  "scalar_one_or_none rows =
     (case rows of [] \<Rightarrow> Inr None | [r] \<Rightarrow> Inr (Some r) | _ \<Rightarrow> Inl MultipleResultsFound)"

definition scalar_one :: "'a list \<Rightarrow> error + 'a" where
  "scalar_one rows =
     (case rows of [] \<Rightarrow> Inl NoResultFound | [r] \<Rightarrow> Inr r | _ \<Rightarrow> Inl MultipleResultsFound)"

text \<open>Committing a mutated \<open>Incident\<close> or \<open>Camera\<close> object writes the row with its
  primary key.\<close>

definition commit_incident :: "Incident \<Rightarrow> world \<Rightarrow> world" where
  "commit_incident i w =
     w\<lparr>incidents := map (\<lambda>r. if inc_id r = inc_id i then i else r) (incidents w)\<rparr>"

definition commit_camera :: "Camera \<Rightarrow> world \<Rightarrow> world" where
  "commit_camera c w =
     w\<lparr>cameras := map (\<lambda>r. if cam_id r = cam_id c then c else r) (cameras w)\<rparr>"

text \<open>core/logging.py, \<open>log_event\<close>: the row appended to the timeline table.\<close>

definition log_event :: "string \<Rightarrow> string \<Rightarrow> string \<Rightarrow> world \<Rightarrow> world" where
  "log_event incident_id cam kind w =
     w\<lparr>timeline := timeline w
          @ [\<lparr>ev_incident_id = incident_id, ev_camera_id = cam, ev_kind = kind\<rparr>]\<rparr>"

text \<open>core/planner.py, \<open>cancel_replan\<close>: \<open>_active_replan_tasks.pop(incident_id, None)\<close>.\<close>

definition cancel_replan :: "string \<Rightarrow> world \<Rightarrow> world" where
  "cancel_replan incident_id w =
     w\<lparr>active_replan_tasks := active_replan_tasks w - {incident_id}\<rparr>"

subsection \<open>api/incidents.py\<close>

text \<open>\<open>acknowledge_incident\<close> and \<open>false_alarm\<close>. The result is the JSON object
  returned, or the exception raised.\<close>

definition acknowledge_incident ::
  "world \<Rightarrow> string \<Rightarrow> string \<Rightarrow> error + world \<times> (string \<times> string) list" where
  "acknowledge_incident w incident_id req_ack_by =
     (case scalar_one_or_none (filter (\<lambda>i. inc_id i = incident_id) (incidents w)) of
        Inl e \<Rightarrow> Inl e
      | Inr None \<Rightarrow> Inl (HTTPException 404 ''Incident not found'')
      | Inr (Some incident) \<Rightarrow>
          (let incident = incident\<lparr>inc_acknowledged := True\<rparr>;
               incident = incident\<lparr>inc_ack_by := Some req_ack_by\<rparr>;
               incident = incident\<lparr>inc_status := ''ACKED''\<rparr>;
               w = commit_incident incident w;
               w = cancel_replan incident_id w;
               w = w\<lparr>guard := reset_camera_state (guard w) (inc_camera_id incident)\<rparr>;
               w = log_event incident_id (inc_camera_id incident) ''ACK_RECEIVED'' w
           in Inr (w, [(''status'', ''acknowledged''), (''incident_id'', incident_id)])))"

definition false_alarm ::
  "world \<Rightarrow> string \<Rightarrow> error + world \<times> (string \<times> string) list" where
  "false_alarm w incident_id =
     (case scalar_one_or_none (filter (\<lambda>i. inc_id i = incident_id) (incidents w)) of
        Inl e \<Rightarrow> Inl e
      | Inr None \<Rightarrow> Inl (HTTPException 404 ''Incident not found'')
      | Inr (Some incident) \<Rightarrow>
          (let incident = incident\<lparr>inc_status := ''CLOSED''\<rparr>;
               incident = incident\<lparr>inc_verdict := ''FALSE_ALARM''\<rparr>;
               incident = incident\<lparr>inc_acknowledged := True\<rparr>;
               w = commit_incident incident w;
               w = cancel_replan incident_id w;
               w = w\<lparr>guard := reset_camera_state (guard w) (inc_camera_id incident)\<rparr>;
               w = log_event incident_id (inc_camera_id incident) ''CLOSED'' w
           in Inr (w, [(''status'', ''closed''), (''reason'', ''false_alarm'')])))"

subsection \<open>api/twilio.py\<close>

text \<open>\<open>str.strip()\<close> on the form field \<open>Digits\<close>, for the ASCII whitespace
  characters (space, tab, line feed, vertical tab, form feed, carriage return and the
  four separators 0x1C to 0x1F).\<close>

definition is_space :: "char \<Rightarrow> bool" where
  "is_space ch =
     (ch \<in> {CHR '' '', CHR 0x09, CHR 0x0A, CHR 0x0B, CHR 0x0C, CHR 0x0D,
             CHR 0x1C, CHR 0x1D, CHR 0x1E, CHR 0x1F})"

definition strip :: "string \<Rightarrow> string" where
  "strip s = rev (dropWhile is_space (rev (dropWhile is_space s)))"

text \<open>\<open>dtmf_webhook\<close>: the four digit branches and the fallback, in the source's
  order. The result is the sentence spoken back, the \<open>msg\<close> of the TwiML response.\<close>

definition dtmf_webhook :: "world \<Rightarrow> string \<Rightarrow> string \<Rightarrow> error + world \<times> string" where
  "dtmf_webhook w incident_id Digits =
     (case scalar_one_or_none (filter (\<lambda>i. inc_id i = incident_id) (incidents w)) of
        Inl e \<Rightarrow> Inl e
      | Inr None \<Rightarrow> Inr (w, ''Incident not found.'')
      | Inr (Some incident) \<Rightarrow>
          (let digit = strip Digits in
           if digit = ''1'' then
             (let incident = incident\<lparr>inc_acknowledged := True\<rparr>;
                  incident = incident\<lparr>inc_ack_by := Some ''voice_dtmf''\<rparr>;
                  incident = incident\<lparr>inc_status := ''ACKED''\<rparr>;
                  w = commit_incident incident w;
                  w = cancel_replan incident_id w;
                  w = w\<lparr>guard := reset_camera_state (guard w) (inc_camera_id incident)\<rparr>;
                  w = log_event incident_id (inc_camera_id incident) ''ACK_RECEIVED'' w
              in Inr (w, ''Acknowledged. Escalation cancelled. Thank you.''))
           else if digit = ''2'' then
             (let incident = incident\<lparr>inc_acknowledged := True\<rparr>;
                  incident = incident\<lparr>inc_ack_by := Some ''voice_dtmf_will_call''\<rparr>;
                  incident = incident\<lparr>inc_status := ''ACKED''\<rparr>;
                  w = commit_incident incident w;
                  w = cancel_replan incident_id w;
                  w = log_event incident_id (inc_camera_id incident) ''ACK_RECEIVED'' w
              in Inr (w, ''Noted. You will call the monitored person. Escalation paused.''))
           else if digit = ''3'' then
             (let incident = incident\<lparr>inc_escalation_stage :=
                                min (inc_escalation_stage incident + 1) 2\<rparr>;
                  w = commit_incident incident w;
                  w = log_event incident_id (inc_camera_id incident) ''ESCALATION'' w
              in Inr (w, ''Escalating to backup contact now.''))
           else if digit = ''4'' then
             (let incident = incident\<lparr>inc_status := ''CLOSED''\<rparr>;
                  incident = incident\<lparr>inc_verdict := ''FALSE_ALARM''\<rparr>;
                  incident = incident\<lparr>inc_acknowledged := True\<rparr>;
                  w = commit_incident incident w;
                  w = cancel_replan incident_id w;
                  w = w\<lparr>guard := reset_camera_state (guard w) (inc_camera_id incident)\<rparr>;
                  w = log_event incident_id (inc_camera_id incident) ''CLOSED'' w
              in Inr (w, ''Marked as false alarm. Incident closed.''))
           else Inr (w, ''Invalid option. Goodbye.'')))"

subsection \<open>The outside world\<close>

text \<open>What the modelled code calls and does not define: the SMS and voice gateway
  (\<open>twilio_client.send_sms\<close> and \<open>start_voice_call\<close>, which return a sid or
  \<open>None\<close> and never raise), the planner (\<open>gemini_client.incident_plan\<close>, which
  returns the raw answer or raises; its first argument here is the number of the call
  within one handler run, its second the frames sent), the parser behind
  \<open>_parse_plan\<close> (\<open>json.loads\<close> and pydantic validation; \<open>None\<close> on any
  failure), \<open>uuid.uuid4()\<close> for a new incident, \<open>time.time()\<close>, and Python's
  rendering of floats (\<open>str\<close> and the format \<open>.0f\<close>).\<close>

record env =
  send_sms :: "string \<Rightarrow> string \<Rightarrow> string option"
  start_voice_call :: "string \<Rightarrow> string \<Rightarrow> string option"
  incident_plan :: "nat \<Rightarrow> string list \<Rightarrow> error + string"
  parse_plan :: "string \<Rightarrow> PlannerPlan option"
  uuid4 :: string
  time_now :: real
  str_float :: "real \<Rightarrow> string"
  format_0f :: "real \<Rightarrow> string"

text \<open>Python's \<open>str\<close> of an optional sid, of a JSON value and of an exception.\<close>

definition str_opt :: "string option \<Rightarrow> string" where
  "str_opt v = (case v of None \<Rightarrow> ''None'' | Some s \<Rightarrow> s)"

definition str_json :: "env \<Rightarrow> json_value \<Rightarrow> string" where
  "str_json e v =
     (case v of
        JInt i \<Rightarrow> str_int i
      | JFloat r \<Rightarrow> str_float e r
      | JStr s \<Rightarrow> s
      | JBool b \<Rightarrow> (if b then ''True'' else ''False'')
      | JNull \<Rightarrow> ''None'')"

definition str_error :: "error \<Rightarrow> string" where
  "str_error e =
     (case e of
        HTTPException code detail \<Rightarrow> str_int code @ '': '' @ detail
      | MultipleResultsFound \<Rightarrow> ''Multiple rows were found when one or none was required''
      | NoResultFound \<Rightarrow> ''No row was found when one was required''
      | PlannerCallFailed m \<Rightarrow> m)"

subsection \<open>core/executor.py\<close>

text \<open>\<open>_run_action\<close>: the result string and the store it leaves. The two emoji that
  open the message bodies are written as their UTF-8 bytes (U+1F6A8; U+2139 U+FE0F).
  The final \<open>else\<close> of the source (unknown action type) has no value of the enum
  left to reach it. An exception inside the \<open>try\<close> becomes the result
  \<open>Error: ...\<close>.\<close>

definition run_action ::
  "env \<Rightarrow> world \<Rightarrow> PlanAction \<Rightarrow> string \<Rightarrow> string \<Rightarrow> string \<Rightarrow> string \<Rightarrow> string
     \<Rightarrow> world \<times> string" where
  "run_action e w a incident_id cam primary_contact backup_contact summary_text =
     (case type a of
        SEND_SMS_PRIMARY \<Rightarrow>
          (let body = [CHR 0xF0, CHR 0x9F, CHR 0x9A, CHR 0xA8] @ '' CamGuard Alert: ''
                 @ (if summary_text = [] then ''Possible fall detected.'' else summary_text)
                 @ '' Incident: '' @ take 8 incident_id;
               sid = send_sms e primary_contact body
           in (w, ''SMS sent: '' @ str_opt sid))
      | SEND_LOW_PRIORITY_HEADSUP \<Rightarrow>
          (let body = [CHR 0xE2, CHR 0x84, CHR 0xB9, CHR 0xEF, CHR 0xB8, CHR 0x8F]
                 @ '' CamGuard Heads-up: Risk score rising for camera '' @ take 8 cam
                 @ ''. '' @ summary_text;
               sid = send_sms e primary_contact body
           in (w, ''Heads-up SMS sent: '' @ str_opt sid))
      | START_VOICE_CALL_PRIMARY \<Rightarrow>
          (let sid = start_voice_call e primary_contact incident_id
           in (w, ''Voice call started: '' @ str_opt sid))
      | ESCALATE_TO_BACKUP \<Rightarrow>
          (let body = [CHR 0xF0, CHR 0x9F, CHR 0x9A, CHR 0xA8] @ '' CamGuard ESCALATION: ''
                 @ (if summary_text = [] then ''Fall not acknowledged.'' else summary_text)
                 @ '' Incident: '' @ take 8 incident_id;
               sid = send_sms e backup_contact body;
               call_sid = start_voice_call e backup_contact incident_id
           in (w, ''Escalated to backup: SMS='' @ str_opt sid @ '', Call='' @ str_opt call_sid))
      | CANCEL_ESCALATION \<Rightarrow> (w, ''Escalation cancelled'')
      | CLOSE_INCIDENT \<Rightarrow>
          (case scalar_one_or_none (filter (\<lambda>i. inc_id i = incident_id) (incidents w)) of
             Inl err \<Rightarrow> (w, ''Error: '' @ str_error err)
           | Inr None \<Rightarrow> (w, ''Incident closed'')
           | Inr (Some incident) \<Rightarrow>
               (commit_incident (incident\<lparr>inc_status := ''CLOSED''\<rparr>) w, ''Incident closed''))
      | INCREASE_CHECK_RATE \<Rightarrow>
          (let new_interval = (case params a ''interval_s'' of None \<Rightarrow> JInt 10 | Some v \<Rightarrow> v)
           in (w, ''Check rate increased to '' @ str_json e new_interval @ ''s''))
      | REQUEST_STRONG_VERIFY \<Rightarrow> (w, ''Strong verification requested''))"

text \<open>\<open>execute_actions\<close>: for each action in order (after its \<open>delay_s\<close> sleep, which
  changes no state), run it, add the \<open>ActionLog\<close> row, and log \<open>ACTION_EXECUTED\<close>.\<close>

fun execute_actions ::
  "env \<Rightarrow> world \<Rightarrow> PlanAction list \<Rightarrow> string \<Rightarrow> string \<Rightarrow> string \<Rightarrow> string \<Rightarrow> string
     \<Rightarrow> world" where
  "execute_actions e w [] incident_id cam primary_contact backup_contact summary_text = w"
| "execute_actions e w (a # rest) incident_id cam primary_contact backup_contact summary_text =
     (case run_action e w a incident_id cam primary_contact backup_contact summary_text of
        (w, result) \<Rightarrow>
          (let w = w\<lparr>action_log := action_log w
                       @ [\<lparr>al_incident_id = incident_id, al_camera_id = cam,
                            al_action_type = ActionType_value (type a),
                            al_params = params a, al_result = result\<rparr>]\<rparr>;
               w = log_event incident_id cam ''ACTION_EXECUTED'' w
           in execute_actions e w rest incident_id cam primary_contact backup_contact
                summary_text))"

subsection \<open>core/planner.py\<close>

text \<open>The fields of \<open>TelemetryPacket\<close> that \<open>handle_incident\<close> uses beyond the
  planner's prompt.\<close>

record TelemetryPacket =
  pkt_camera_id :: string
  pkt_motion_energy :: real
  pkt_stillness_score :: real
  pkt_frames_jpeg_base64 :: "string list"

text \<open>\<open>_fallback_plan\<close>.\<close>

definition fallback_plan :: "real \<Rightarrow> bool \<Rightarrow> PlannerPlan" where
  "fallback_plan motion_energy voice =
     (let sev = (if motion_energy > 0.8 then 4 else 3);
          acts = [\<lparr>type = SEND_SMS_PRIMARY, delay_s = 0, params = Map.empty\<rparr>];
          acts = (if voice \<and> sev \<ge> 4
                  then acts @ [\<lparr>type = START_VOICE_CALL_PRIMARY, delay_s = 1.0,
                                 params = Map.empty\<rparr>]
                  else acts)
      in \<lparr>verdict = POSSIBLE_FALL,
          severity_seed = sev,
          confidence = 0.3,
          reasons = [''Fallback plan: Gemini unavailable or returned invalid response''],
          actions = acts,
          replan_interval_s = 5.0\<rparr>)"

text \<open>\<open>_generate_summary\<close>, with \<open>"; ".join\<close>.\<close>

fun join_semicolon :: "string list \<Rightarrow> string" where
  "join_semicolon [] = ''''"
| "join_semicolon [x] = x"
| "join_semicolon (x # y # rest) = x @ ''; '' @ join_semicolon (y # rest)"

definition generate_summary :: "env \<Rightarrow> Incident \<Rightarrow> string" where
  "generate_summary e incident =
     (let joined = join_semicolon
            (take 3 (case inc_reasons_current incident of None \<Rightarrow> [] | Some rs \<Rightarrow> rs));
          reasons_text = (if joined = [] then ''Monitoring in progress'' else joined);
          ack_status = (if inc_acknowledged incident then ''acknowledged''
                        else ''not yet acknowledged'')
      in inc_verdict incident @ '' detected (severity ''
           @ str_int (inc_severity_current incident) @ ''/5). Time since event: ''
           @ format_0f e (inc_time_down_s incident) @ ''s. '' @ reasons_text
           @ ''. Escalation stage '' @ str_int (inc_escalation_stage incident)
           @ ''. Status: '' @ ack_status @ ''.'')"

text \<open>The planning block of \<open>handle_incident\<close> (the first call of the planner, the
  retry under \<open>if not plan and retry_count == 0\<close> inside its \<open>try/except: pass\<close>,
  and the fallback): the plan and the frames sent by each call made. An exception of the
  first call is not caught and leaves the handler.\<close>

definition plan_incident_with_retry ::
  "env \<Rightarrow> TelemetryPacket \<Rightarrow> bool \<Rightarrow> error + PlannerPlan \<times> string list list" where
  "plan_incident_with_retry e packet voice =
     (case incident_plan e 0 (take 4 (pkt_frames_jpeg_base64 packet)) of
        Inl err \<Rightarrow> Inl err
      | Inr raw_plan \<Rightarrow>
          (let plan = parse_plan e raw_plan;
               calls = [take 4 (pkt_frames_jpeg_base64 packet)];
               (plan, calls) =
                 (if plan = None
                  then (case incident_plan e 1 (take 2 (pkt_frames_jpeg_base64 packet)) of
                          Inl err \<Rightarrow> (None, calls @ [take 2 (pkt_frames_jpeg_base64 packet)])
                        | Inr raw_plan \<Rightarrow>
                            (parse_plan e raw_plan,
                             calls @ [take 2 (pkt_frames_jpeg_base64 packet)]))
                  else (plan, calls));
               plan = (case plan of
                         None \<Rightarrow> fallback_plan (pkt_motion_energy packet) voice
                       | Some p \<Rightarrow> p)
           in Inr (plan, calls)))"

text \<open>What \<open>handle_incident\<close> returns: the error object for an unknown camera, or the
  summary of the run.\<close>

datatype handler_result =
    CameraNotFound
  | Handled string int string int nat

text \<open>\<open>handle_incident\<close>. The result is the store as the handler leaves it, whether
  it returns or raises, with the value returned or the exception raised: every session
  commits before the next step starts, so what was written before an exception stays
  written. The local \<open>incident\<close> is the row as the first session loaded or created it;
  the second session loads the row again as \<open>inc\<close>, writes the plan into it and
  commits. The guard and the executor are then called with the fields of \<open>incident\<close>.
  An exception of the planner's first call leaves the handler after the new incident (if
  one was created) and \<open>TRIGGER_RECEIVED\<close> have been committed; the request it sent is
  recorded. The tasks the handler only schedules (strong verification, the severity
  ticker, the body of the replan loop) run later and are not part of this function;
  registering the replan task is. The notification policy and the agent notes are read
  for the prompt only; a camera has the one policy row that api/cameras.py creates with
  it.\<close>

definition handle_incident ::
  "env \<Rightarrow> world \<Rightarrow> TelemetryPacket \<Rightarrow> world \<times> (error + handler_result)" where
  "handle_incident e w packet =
     (case scalar_one_or_none (filter (\<lambda>c. cam_id c = pkt_camera_id packet) (cameras w)) of
        Inl err \<Rightarrow> (w, Inl err)
      | Inr None \<Rightarrow> (w, Inr CameraNotFound)
      | Inr (Some camera) \<Rightarrow>
        (case scalar_one_or_none
                (filter (\<lambda>i. inc_camera_id i = pkt_camera_id packet \<and> inc_status i = ''ACTIVE'')
                   (incidents w)) of
           Inl err \<Rightarrow> (w, Inl err)
         | Inr active_incident \<Rightarrow>
           (let incident =
                  (case active_incident of
                     Some i \<Rightarrow> i
                   | None \<Rightarrow>
                       \<lparr>inc_id = uuid4 e, inc_camera_id = pkt_camera_id packet,
                        inc_status = ''ACTIVE'', inc_verdict = ''POSSIBLE_FALL'',
                        inc_severity_seed = 3, inc_severity_current = 3,
                        inc_risk_score = 0.8, inc_confidence = 0.0, inc_time_down_s = 0.0,
                        inc_acknowledged = False, inc_ack_by = None,
                        inc_escalation_stage = 0, inc_plan_version = 0,
                        inc_reasons_current = Some [], inc_summary_text = None,
                        inc_frames_b64 = Some (take 4 (pkt_frames_jpeg_base64 packet))\<rparr>);
                w = (case active_incident of
                       Some i \<Rightarrow> w
                     | None \<Rightarrow> w\<lparr>incidents := incidents w @ [incident]\<rparr>);
                w = log_event (inc_id incident) (pkt_camera_id packet) ''TRIGGER_RECEIVED'' w
            in
            case plan_incident_with_retry e packet (cam_voice_enabled camera) of
              Inl err \<Rightarrow>
                (w\<lparr>planner_calls := planner_calls w
                                      @ [take 4 (pkt_frames_jpeg_base64 packet)]\<rparr>, Inl err)
            | Inr (plan, calls) \<Rightarrow>
              (let w = w\<lparr>planner_calls := planner_calls w @ calls\<rparr> in
               case scalar_one (filter (\<lambda>i. inc_id i = inc_id incident) (incidents w)) of
                 Inl err \<Rightarrow> (w, Inl err)
               | Inr inc \<Rightarrow>
                 (let inc = inc\<lparr>inc_plan_version := inc_plan_version inc + 1\<rparr>;
                      inc = inc\<lparr>inc_severity_seed := severity_seed plan\<rparr>;
                      inc = inc\<lparr>inc_severity_current := severity_seed plan\<rparr>;
                      inc = inc\<lparr>inc_verdict := Verdict_value (verdict plan)\<rparr>;
                      inc = inc\<lparr>inc_confidence := confidence plan\<rparr>;
                      inc = inc\<lparr>inc_reasons_current := Some (reasons plan)\<rparr>;
                      inc = inc\<lparr>inc_summary_text := Some (generate_summary e inc)\<rparr>;
                      w = commit_incident inc w;
                      w = w\<lparr>incident_plans := incident_plans w
                             @ [\<lparr>ip_incident_id = inc_id incident,
                                  ip_version = inc_plan_version inc,
                                  ip_model_used = ''fast'', ip_plan = plan\<rparr>]\<rparr>;
                      w = log_event (inc_id incident) (pkt_camera_id packet) ''PLAN_CREATED'' w
                  in
                  case approve_plan (guard w) (time_now e) (actions plan)
                         \<lparr>camera_id = pkt_camera_id packet,
                          acknowledged = inc_acknowledged incident,
                          voice_enabled = cam_voice_enabled camera,
                          sms_enabled = cam_sms_enabled camera,
                          escalation_stage = inc_escalation_stage incident,
                          cooldown_contact_s = 5, max_primary_call_attempts = 2,
                          max_escalation_stage = 2\<rparr> of
                    (g, apprvd, decisions) \<Rightarrow>
                      (let w = w\<lparr>guard := g\<rparr>;
                           w = log_event (inc_id incident) (pkt_camera_id packet)
                                 ''PLAN_APPROVED'' w;
                           w = execute_actions e w apprvd (inc_id incident)
                                 (pkt_camera_id packet) (cam_primary_contact camera)
                                 (cam_backup_contact camera)
                                 (case inc_summary_text incident of
                                    None \<Rightarrow> generate_summary e incident
                                  | Some s \<Rightarrow>
                                      if s = [] then generate_summary e incident else s);
                           w = w\<lparr>active_replan_tasks :=
                                   insert (inc_id incident) (active_replan_tasks w)\<rparr>
                       in (w, Inr (Handled (inc_id incident) (inc_plan_version inc)
                                     (Verdict_value (verdict plan)) (severity_seed plan)
                                     (length apprvd)))))))))"

subsection \<open>core/idle.py\<close>

text \<open>A config suggestion as read from the warehouse: the fields
  \<open>suggestion.get("camera_id", "")\<close> and \<open>suggestion.get("config_json", {})\<close>.\<close>

record suggestion =
  sg_camera_id :: string
  sg_config_json :: "string \<rightharpoonup> json_value"

text \<open>The set literal \<open>allowed_keys\<close> of \<open>apply_config_suggestions\<close>, and the keys
  of the default \<open>config\<close> of a \<open>Camera\<close> (store/models.py), which are the six config
  keys the specification lists.\<close>

definition allowed_keys :: "string list" where
  "allowed_keys =
     [''motion_spike_threshold'', ''stillness_threshold'',
      ''risk_threshold_low'', ''risk_threshold_high'',
      ''escalation_delay_s'']"

definition recognized_config_keys :: "string list" where
  "recognized_config_keys =
     [''motion_spike_threshold'', ''stillness_threshold'',
      ''risk_threshold_low'', ''risk_threshold_high'',
      ''escalation_delay_s'', ''check_interval_s'']"

text \<open>\<open>camera.config or {}\<close>.\<close>

definition config_or_empty :: "Camera \<Rightarrow> string \<rightharpoonup> json_value" where
  "config_or_empty c = (case cam_config c of None \<Rightarrow> Map.empty | Some m \<Rightarrow> m)"

text \<open>\<open>is_camera_idle\<close>.\<close>

definition is_camera_idle :: "world \<Rightarrow> string \<Rightarrow> error + bool" where
  "is_camera_idle w cid =
     (case scalar_one_or_none (filter (\<lambda>c. cam_id c = cid) (cameras w)) of
        Inl err \<Rightarrow> Inl err
      | Inr None \<Rightarrow> Inr False
      | Inr (Some camera) \<Rightarrow>
          if cam_risk_score camera > 0.3 then Inr False
          else (case scalar_one_or_none
                       (filter (\<lambda>i. inc_camera_id i = cid \<and> inc_status i = ''ACTIVE'')
                          (incidents w)) of
                  Inl err \<Rightarrow> Inl err
                | Inr (Some i) \<Rightarrow> Inr False
                | Inr None \<Rightarrow> Inr True))"

text \<open>One pass of the loop of \<open>apply_config_suggestions\<close>. Each \<open>continue\<close> leaves the
  world as it is. \<open>is_camera_idle\<close> is called outside the \<open>try\<close>, so its exception
  leaves the function; an exception of the lookup inside the \<open>try\<close> is caught and
  logged. On apply the camera row gets \<open>{**old_config, **filtered}\<close>, a
  \<open>ConfigUpdate\<close> row is added and \<open>CONFIG_SUGGESTION_APPLIED\<close> is logged for the
  incident id \<open>system\<close>.\<close>

definition apply_suggestion :: "world \<Rightarrow> suggestion \<Rightarrow> error + world" where
  "apply_suggestion w s =
     (if sg_camera_id s = [] then Inr w
      else case is_camera_idle w (sg_camera_id s) of
        Inl err \<Rightarrow> Inl err
      | Inr idle \<Rightarrow>
          if \<not> idle then Inr w
          else
            (let config_json = sg_config_json s in
             if config_json = Map.empty then Inr w
             else
               (let filtered = config_json |` set allowed_keys in
                if filtered = Map.empty then Inr w
                else
                  (case scalar_one_or_none
                          (filter (\<lambda>c. cam_id c = sg_camera_id s) (cameras w)) of
                     Inl err \<Rightarrow> Inr w
                   | Inr None \<Rightarrow> Inr w
                   | Inr (Some camera) \<Rightarrow>
                       (let old_config = config_or_empty camera;
                            new_config = old_config ++ filtered;
                            camera = camera\<lparr>cam_config := Some new_config\<rparr>;
                            w = commit_camera camera w;
                            w = w\<lparr>config_updates := config_updates w
                                   @ [\<lparr>cu_camera_id = sg_camera_id s,
                                        cu_config_json = filtered, cu_applied = True\<rparr>]\<rparr>;
                            w = log_event ''system'' (sg_camera_id s)
                                  ''CONFIG_SUGGESTION_APPLIED'' w
                        in Inr w)))))"

text \<open>\<open>apply_config_suggestions\<close> over the suggestions read from the warehouse. The
  result is the store as the run leaves it and the exception that ended the run, if any.
  A pass can raise only in \<open>is_camera_idle\<close>, before it writes; every applied patch was
  committed by its own session, so the patches of earlier passes stay.\<close>

fun apply_config_suggestions :: "world \<Rightarrow> suggestion list \<Rightarrow> world \<times> error option" where
  "apply_config_suggestions w [] = (w, None)"
| "apply_config_suggestions w (s # rest) =
     (case apply_suggestion w s of
        Inl err \<Rightarrow> (w, Some err)
      | Inr w' \<Rightarrow> apply_config_suggestions w' rest)"

text \<open>The run described suggestion by suggestion and key by key, to compare the code
  with. A key of the merged config takes the suggested
  value when it is one of the allowed keys and the patch has it, and keeps the camera's
  value otherwise.\<close>

definition merged_config :: "suggestion \<Rightarrow> Camera \<Rightarrow> string \<rightharpoonup> json_value" where
  "merged_config s c =
     (\<lambda>k. if k \<in> set allowed_keys \<and> sg_config_json s k \<noteq> None then sg_config_json s k
          else config_or_empty c k)"

text \<open>The store after a patch has been applied: the row of the suggestion's camera
  carries the merged config, one \<open>ConfigUpdate\<close> row holding the allowed part of the
  patch is added, \<open>CONFIG_SUGGESTION_APPLIED\<close> is logged, and nothing else differs.\<close>

definition patched_world :: "world \<Rightarrow> suggestion \<Rightarrow> world" where
  "patched_world w s =
     w\<lparr>cameras := map (\<lambda>c. if cam_id c = sg_camera_id s
                             then c\<lparr>cam_config := Some (merged_config s c)\<rparr> else c)
                       (cameras w),
       config_updates := config_updates w
         @ [\<lparr>cu_camera_id = sg_camera_id s,
              cu_config_json = sg_config_json s |` set allowed_keys, cu_applied = True\<rparr>],
       timeline := timeline w
         @ [\<lparr>ev_incident_id = ''system'', ev_camera_id = sg_camera_id s,
              ev_kind = ''CONFIG_SUGGESTION_APPLIED''\<rparr>]\<rparr>"

text \<open>The suggestions are taken in order. One with an empty camera id is skipped. A
  patch is applied exactly when the camera is idle and the patch has at least one
  allowed key; any other suggestion leaves the store as it is. When the idle check
  raises, the run ends with the store as the earlier suggestions left it.\<close>

fun suggestions_reference :: "world \<Rightarrow> suggestion list \<Rightarrow> world \<times> error option" where
  "suggestions_reference w [] = (w, None)"
| "suggestions_reference w (s # rest) =
     (if sg_camera_id s = [] then suggestions_reference w rest
      else case is_camera_idle w (sg_camera_id s) of
             Inl err \<Rightarrow> (w, Some err)
           | Inr idle \<Rightarrow>
               if idle \<and> (\<exists>k \<in> set allowed_keys. sg_config_json s k \<noteq> None)
               then suggestions_reference (patched_world w s) rest
               else suggestions_reference w rest)"

subsection \<open>Sample data\<close>

text \<open>An incident on camera \<open>cam-1\<close> and a world holding it, after the guard has
  approved one SMS and one voice call for that camera at clock reading 1000.\<close>

definition sample_incident :: Incident where
  "sample_incident =
     \<lparr>inc_id = ''inc-1'', inc_camera_id = ''cam-1'', inc_status = ''ACTIVE'',
      inc_verdict = ''CONFIRMED_FALL'', inc_severity_seed = 4, inc_severity_current = 5,
      inc_risk_score = 0.9, inc_confidence = 0.8, inc_time_down_s = 130,
      inc_acknowledged = False, inc_ack_by = None, inc_escalation_stage = 1,
      inc_plan_version = 3, inc_reasons_current = Some [''Person on the floor''],
      inc_summary_text = None, inc_frames_b64 = Some [''frame-0'']\<rparr>"

definition sample_camera :: Camera where
  "sample_camera =
     \<lparr>cam_id = ''cam-1'', cam_primary_contact = ''+15550001'',
      cam_backup_contact = ''+15550002'', cam_voice_enabled = True, cam_sms_enabled = True,
      cam_risk_score = 0.2, cam_config = Some [''escalation_delay_s'' \<mapsto> JInt 60]\<rparr>"

definition sample_world :: world where
  "sample_world =
     \<lparr>cameras = [sample_camera], incidents = [sample_incident], incident_plans = [],
      timeline = [], action_log = [], config_updates = [],
      guard = \<lparr>last_contact_time = [''cam-1'' \<mapsto> 1000],
               primary_call_counts = [''cam-1'' \<mapsto> 1]\<rparr>,
      active_replan_tasks = {''inc-1''}, planner_calls = []\<rparr>"

text \<open>The same incident once closed as a false alarm, and the world holding it.\<close>

definition closed_incident :: Incident where
  "closed_incident =
     sample_incident\<lparr>inc_status := ''CLOSED'', inc_verdict := ''FALSE_ALARM'',
                     inc_acknowledged := True\<rparr>"

definition closed_world :: world where
  "closed_world = sample_world\<lparr>incidents := [closed_incident]\<rparr>"

text \<open>An outside world in which the planner answers, but never with a plan that
  parses, and the gateway is in its unconfigured mock mode. The two float renderings are
  stand-ins (nearest integer, and the integer part followed by \<open>.0\<close>); no statement
  below depends on them.\<close>

definition sample_env :: env where
  "sample_env =
     \<lparr>send_sms = (\<lambda>to_number body. Some ''MOCK_SMS_SID''),
      start_voice_call = (\<lambda>to_number incident_id. Some ''MOCK_CALL_SID''),
      incident_plan = (\<lambda>n frames. Inr ''I cannot help with that''),
      parse_plan = (\<lambda>raw. None),
      uuid4 = ''inc-2'',
      time_now = 2000,
      str_float = (\<lambda>r. str_int \<lfloor>r\<rfloor> @ ''.0''),
      format_0f = (\<lambda>r. str_int (round r))\<rparr>"

definition sample_packet :: TelemetryPacket where
  "sample_packet =
     \<lparr>pkt_camera_id = ''cam-1'', pkt_motion_energy = 0.2, pkt_stillness_score = 0.9,
      pkt_frames_jpeg_base64 = [''frame-1'', ''frame-2'', ''frame-3'']\<rparr>"

text \<open>A suggestion for camera \<open>cam-1\<close> that patches one allowed key,
  \<open>check_interval_s\<close> and an unknown key.\<close>

definition sample_suggestion :: suggestion where
  "sample_suggestion =
     \<lparr>sg_camera_id = ''cam-1'',
      sg_config_json = [''escalation_delay_s'' \<mapsto> JInt 90,
                        ''check_interval_s'' \<mapsto> JInt 5,
                        ''colour'' \<mapsto> JStr ''blue'']\<rparr>"

text \<open>A suggestion for camera \<open>cam-1\<close> with no allowed key, and one for a camera
  \<open>cam-2\<close>.\<close>

definition unknown_suggestion :: suggestion where
  "unknown_suggestion =
     \<lparr>sg_camera_id = ''cam-1'',
      sg_config_json = [''check_interval_s'' \<mapsto> JInt 5, ''colour'' \<mapsto> JStr ''blue'']\<rparr>"

definition second_suggestion :: suggestion where
  "second_suggestion =
     \<lparr>sg_camera_id = ''cam-2'', sg_config_json = [''stillness_threshold'' \<mapsto> JInt 1]\<rparr>"

text \<open>A world with the idle camera \<open>cam-1\<close> and a low-risk camera \<open>cam-2\<close> on which two
  incidents are \<open>ACTIVE\<close>.\<close>

definition two_camera_world :: world where
  "two_camera_world =
     closed_world
       \<lparr>cameras := [sample_camera, sample_camera\<lparr>cam_id := ''cam-2'', cam_risk_score := 0.1\<rparr>],
        incidents := [closed_incident,
                      sample_incident\<lparr>inc_id := ''inc-2'', inc_camera_id := ''cam-2''\<rparr>,
                      sample_incident\<lparr>inc_id := ''inc-3'', inc_camera_id := ''cam-2''\<rparr>]\<rparr>"

section \<open>Theorems\<close>


subsection \<open>Severity model\<close>

text \<open>The two computations agree once the three thresholds on \<open>time_down_s\<close> are
  read as booleans ordered by implication; the case analysis is on those booleans.\<close>

lemma severity_core:
  assumes "c120 \<Longrightarrow> c45" and "c45 \<Longrightarrow> c15"
  shows "(let sev = (seed::int);
              sev = (if c120 then max sev 5
                     else if c45 then max sev 4
                     else if c15 then max sev 3
                     else sev);
              sev = (if cs then min (sev + 1) 5 else sev);
              sev = (if cm then max (sev - 1) 1 else sev);
              sev = (if a then max (sev - 1) 1 else sev)
          in max 1 (min 5 sev))
       = (let s = seed;
              s = (if c15 then max s 3 else s);
              s = (if c45 then max s 4 else s);
              s = (if c120 then max s 5 else s);
              s = (if cs then min 5 (s + 1) else s);
              s = (if cm then max 1 (s - 1) else s);
              s = (if a then s - 1 else s)
          in max 1 (min 5 s))"
  using assms
  by (cases c120; cases c45; cases c15; cases cs; cases cm; cases a;
      simp add: Let_def max_def min_def)

lemma clamp_1_5: "1 \<le> max 1 (min 5 (x::int)) \<and> max 1 (min 5 x) \<le> 5"
  by simp

lemma compute_severity_eq_reference:
  "compute_severity seed t st mo a = severity_reference seed t st mo a"
  unfolding compute_severity_def severity_reference_def
  by (rule severity_core) simp_all

lemma compute_severity_range:
  "1 \<le> compute_severity seed t st mo a \<and> compute_severity seed t st mo a \<le> 5"
  unfolding compute_severity_def Let_def by (rule clamp_1_5)

text \<open>
  C1. For every integer seed, reals \<open>t_down_s\<close>, \<open>stillness\<close>, \<open>motion\<close> and boolean
  \<open>acked\<close>, \<open>compute_severity\<close> returns an integer between 1 and 5 that equals the
  reference computation: start from the seed; raise to at least 3 if \<open>t_down_s > 15\<close>,
  to at least 4 if \<open>> 45\<close>, to at least 5 if \<open>> 120\<close>; add 1 (capped at 5) when
  \<open>stillness > 0.9\<close> and \<open>t_down_s > 30\<close>; subtract 1 (floored at 1) when
  \<open>motion > 0.5\<close> and \<open>stillness < 0.3\<close>; subtract 1 if acknowledged; clamp to 1..5.
\<close>

theorem compute_severity_refines_reference:
  "compute_severity seed t_down_s stillness motion acked
     = severity_reference seed t_down_s stillness motion acked
   \<and> 1 \<le> compute_severity seed t_down_s stillness motion acked
   \<and> compute_severity seed t_down_s stillness motion acked \<le> 5"
  using compute_severity_eq_reference compute_severity_range by simp

subsection \<open>Risk score\<close>

lemma bed_state_scores_unlisted:
  "bed_state \<notin> set listed_bed_states \<Longrightarrow> bed_state_scores bed_state = None"
  by (simp add: bed_state_scores_def listed_bed_states_def)

lemma compute_risk_score_range:
  "0 \<le> compute_risk_score b s h base \<and> compute_risk_score b s h base \<le> 1"
  unfolding compute_risk_score_def Let_def by simp

text \<open>
  C10. \<open>compute_risk_score\<close> is total and never errors: for every \<open>bed_state\<close>
  string, every stability string, every integer hour and every base score the result
  lies in [0,1]; a \<open>bed_state\<close> outside the seven listed states contributes a base of
  0.1 instead of raising.
\<close>

theorem compute_risk_score_total_clamped:
  "0 \<le> compute_risk_score bed_state stability hour_of_day base_score
   \<and> compute_risk_score bed_state stability hour_of_day base_score \<le> 1
   \<and> (bed_state \<notin> set listed_bed_states \<longrightarrow>
        compute_risk_score bed_state stability hour_of_day base_score
          = max 0 (min 1 (base_score + 0.1
              + (if stability = ''UNSTABLE'' then 0.25
                 else if stability = ''UNKNOWN'' then 0.1 else 0)
              + (if 22 \<le> hour_of_day \<or> hour_of_day \<le> 5 then 0.1 else 0))))"
proof -
  have "compute_risk_score bed_state stability hour_of_day base_score
          = max 0 (min 1 (base_score + 0.1
              + (if stability = ''UNSTABLE'' then 0.25
                 else if stability = ''UNKNOWN'' then 0.1 else 0)
              + (if 22 \<le> hour_of_day \<or> hour_of_day \<le> 5 then 0.1 else 0)))"
    if "bed_state \<notin> set listed_bed_states"
    using bed_state_scores_unlisted [OF that]
    by (simp add: compute_risk_score_def Let_def)
  then show ?thesis
    using compute_risk_score_range by blast
qed

theorem compute_risk_score_total_clamped_witness:
  "''ON_THE_FLOOR'' \<notin> set listed_bed_states
   \<and> 0 \<le> compute_risk_score ''ON_THE_FLOOR'' ''UNSTABLE'' 23 0
   \<and> compute_risk_score ''ON_THE_FLOOR'' ''UNSTABLE'' 23 0 \<le> 1
   \<and> compute_risk_score ''ON_THE_FLOOR'' ''UNSTABLE'' 23 0 = 0.45"
  using compute_risk_score_total_clamped [of "''ON_THE_FLOOR''" "''UNSTABLE''" 23 0]
  by (simp add: listed_bed_states_def)

subsection \<open>Safety guard: one call\<close>

text \<open>One pass of the loop body decides as the rules say and writes the state only on
  approval.\<close>

lemma guard_action_rule:
  assumes "guard_action c now g a = (g', d)"
  shows "action d = ActionType_value (type a)"
    and "approved d = rule_allows c now g (type a)"
    and "g' = (if approved d then note_approval c now g (type a) else g)"
  using assms
  by (cases "type a";
      auto simp add: guard_action_def Let_def cooled_down_def note_approval_def
        contact_class_def not_less not_le split: if_splits)+

lemma approve_loop_reference:
  assumes "approve_loop c now acts g apprvd decisions = (g', apprvd', decisions')"
  shows "\<exists>ds. decisions' = decisions @ ds \<and> length ds = length acts
           \<and> map action ds = map (\<lambda>a. ActionType_value (type a)) acts
           \<and> guard_reference c now g acts = (g', map approved ds)
           \<and> apprvd' = apprvd @ map fst (filter (\<lambda>(a, d). approved d) (zip acts ds))"
  using assms
proof (induction acts arbitrary: g apprvd decisions)
  case Nil
  then show ?case by simp
next
  case (Cons a rest)
  obtain g1 d where step: "guard_action c now g a = (g1, d)"
    by (cases "guard_action c now g a")
  from Cons.prems step
  have "approve_loop c now rest g1 (if approved d then apprvd @ [a] else apprvd)
          (decisions @ [d]) = (g', apprvd', decisions')"
    by simp
  from Cons.IH [OF this] obtain ds where
    ds: "decisions' = (decisions @ [d]) @ ds" "length ds = length rest"
      "map action ds = map (\<lambda>a. ActionType_value (type a)) rest"
      "guard_reference c now g1 rest = (g', map approved ds)"
      "apprvd' = (if approved d then apprvd @ [a] else apprvd)
          @ map fst (filter (\<lambda>(a, d). approved d) (zip rest ds))"
    by blast
  note r = guard_action_rule [OF step]
  have "guard_reference c now g (a # rest) = (g', map approved (d # ds))"
    using r ds(4) by (simp add: Let_def)
  moreover have "apprvd' = apprvd @ map fst (filter (\<lambda>(a, d). approved d) (zip (a # rest) (d # ds)))"
    using ds(5) by simp
  ultimately show ?case
    using ds(1,2,3) r(1) by (intro exI [of _ "d # ds"]) simp
qed

lemma subseq_approved:
  "subseq (map fst (filter P (zip xs ys))) xs"
proof -
  have "subseq (map fst (filter P (zip xs ys))) (map fst (zip xs ys))"
    by (intro subseq_map subseq_filter_left)
  moreover have "subseq (map fst (zip xs ys)) xs"
    unfolding map_fst_zip_take
    by (metis append_take_drop_id prefix_def prefix_imp_subseq)
  ultimately show ?thesis
    by (rule subseq_order.trans)
qed

text \<open>
  C2. For every list of actions and camera state, \<open>approve_plan\<close> returns exactly one
  decision per input action, in input order, each a record of the action type's name, a
  boolean \<open>approved\<close> and a reason string. The flags are those of the rules read in list
  order against the running state: \<open>CLOSE_INCIDENT\<close> and \<open>CANCEL_ESCALATION\<close> always;
  a contact-class action only once the cooldown since \<open>last_contact\<close> has elapsed;
  \<open>START_VOICE_CALL_PRIMARY\<close> only with voice enabled and the call count below its
  maximum; \<open>SEND_SMS_PRIMARY\<close> only with SMS enabled; \<open>ESCALATE_TO_BACKUP\<close> only when
  not acknowledged and below the maximal stage. The approved actions are the approved
  positions of the input, in order (a subsequence of it); an approved contact-class or
  escalation action sets \<open>last_contact\<close> of the camera to the call's timestamp and an
  approved voice call increments the camera's call count.
\<close>

theorem approve_plan_follows_rules:
  assumes "approve_plan g now acts c = (g', apprvd, decisions)"
  shows "length decisions = length acts
       \<and> map action decisions = map (\<lambda>a. ActionType_value (type a)) acts
       \<and> guard_reference c now g acts = (g', map approved decisions)
       \<and> apprvd = map fst (filter (\<lambda>(a, d). approved d) (zip acts decisions))
       \<and> subseq apprvd acts"
proof -
  from assms have "approve_loop c now acts g [] [] = (g', apprvd, decisions)"
    by (simp add: approve_plan_def)
  from approve_loop_reference [OF this] show ?thesis
    using subseq_approved [of "\<lambda>(a, d). approved d" acts decisions] by auto
qed

text \<open>The fallback plan's two actions on a fresh camera at time 1000: the SMS is approved
  and stamps \<open>last_contact\<close>, so the voice call of the same plan meets the cooldown.\<close>

theorem approve_plan_follows_rules_witness:
  "approve_plan \<lparr>last_contact_time = Map.empty, primary_call_counts = Map.empty\<rparr> 1000
     [\<lparr>type = SEND_SMS_PRIMARY, delay_s = 0, params = Map.empty\<rparr>,
      \<lparr>type = START_VOICE_CALL_PRIMARY, delay_s = 1, params = Map.empty\<rparr>]
     \<lparr>camera_id = ''cam-1'', acknowledged = False, voice_enabled = True, sms_enabled = True,
      escalation_stage = 0, cooldown_contact_s = 5, max_primary_call_attempts = 2,
      max_escalation_stage = 2\<rparr>
   = (\<lparr>last_contact_time = [''cam-1'' \<mapsto> 1000], primary_call_counts = Map.empty\<rparr>,
      [\<lparr>type = SEND_SMS_PRIMARY, delay_s = 0, params = Map.empty\<rparr>],
      [\<lparr>action = ''SEND_SMS_PRIMARY'', approved = True, reason = ''''\<rparr>,
       \<lparr>action = ''START_VOICE_CALL_PRIMARY'', approved = False,
        reason = ''Contact cooldown: 5s not elapsed''\<rparr>])
   \<and> guard_reference
        \<lparr>camera_id = ''cam-1'', acknowledged = False, voice_enabled = True, sms_enabled = True,
         escalation_stage = 0, cooldown_contact_s = 5, max_primary_call_attempts = 2,
         max_escalation_stage = 2\<rparr> 1000
        \<lparr>last_contact_time = Map.empty, primary_call_counts = Map.empty\<rparr>
        [\<lparr>type = SEND_SMS_PRIMARY, delay_s = 0, params = Map.empty\<rparr>,
         \<lparr>type = START_VOICE_CALL_PRIMARY, delay_s = 1, params = Map.empty\<rparr>]
      = (\<lparr>last_contact_time = [''cam-1'' \<mapsto> 1000], primary_call_counts = Map.empty\<rparr>,
         [True, False])
   \<and> subseq [\<lparr>type = SEND_SMS_PRIMARY, delay_s = 0, params = Map.empty\<rparr>]
        [\<lparr>type = SEND_SMS_PRIMARY, delay_s = 0, params = Map.empty\<rparr>,
         \<lparr>type = START_VOICE_CALL_PRIMARY, delay_s = 1, params = Map.empty\<rparr>]"
proof -
  let ?g = "\<lparr>last_contact_time = Map.empty, primary_call_counts = Map.empty\<rparr>"
  let ?sms = "\<lparr>type = SEND_SMS_PRIMARY, delay_s = 0, params = Map.empty\<rparr>"
  let ?voice = "\<lparr>type = START_VOICE_CALL_PRIMARY, delay_s = 1, params = Map.empty\<rparr>"
  let ?c = "\<lparr>camera_id = ''cam-1'', acknowledged = False, voice_enabled = True,
      sms_enabled = True, escalation_stage = 0, cooldown_contact_s = 5,
      max_primary_call_attempts = 2, max_escalation_stage = 2\<rparr>"
  have run: "approve_plan ?g 1000 [?sms, ?voice] ?c
    = (\<lparr>last_contact_time = [''cam-1'' \<mapsto> 1000], primary_call_counts = Map.empty\<rparr>,
       [?sms],
       [\<lparr>action = ''SEND_SMS_PRIMARY'', approved = True, reason = ''''\<rparr>,
        \<lparr>action = ''START_VOICE_CALL_PRIMARY'', approved = False,
         reason = ''Contact cooldown: 5s not elapsed''\<rparr>])"
    by (simp add: approve_plan_def guard_action_def Let_def str_int_def digit_char_def)
  from approve_plan_follows_rules [OF run] run show ?thesis
    by simp
qed

subsection \<open>Safety guard: histories and the contact cooldown\<close>

lemma guard_action_contact:
  assumes "guard_action c now g a = (g', d)" and "approved d" and "contact_class (type a)"
  shows "real_of_int (cooldown_contact_s c)
           \<le> now - (case last_contact_time g (camera_id c) of None \<Rightarrow> 0 | Some t \<Rightarrow> t)"
    and "last_contact_time g' (camera_id c) = Some now"
  using guard_action_rule [OF assms(1)] assms(2,3)
  by (cases "type a"; simp add: contact_class_def cooled_down_def note_approval_def Let_def)+

lemma guard_action_last_contact:
  assumes "guard_action c now g a = (g', d)"
  shows "last_contact_time g' cam = last_contact_time g cam
       \<or> last_contact_time g' cam = Some now"
  using guard_action_rule(3) [OF assms]
  by (cases "approved d") (auto simp add: note_approval_def Let_def)

lemma flat_ok_mono: "flat_ok cd lb es \<Longrightarrow> lb' \<le> lb \<Longrightarrow> flat_ok cd lb' es"
  by (induction cd lb es arbitrary: lb' rule: flat_ok.induct) auto

text \<open>Once \<open>last_contact\<close> of a camera is \<open>l\<close>, the next contact-class approval on
  that camera without a reset in between comes no sooner than \<open>l\<close> plus the cooldown.\<close>

lemma run_flat_after_contact:
  assumes "run_flat g es = (g', ents)"
    and "flat_ok cd l es"
    and "last_contact_time g cam = Some l"
    and "ents = mid @ Decided cam t2 ty2 True # post"
    and "WasReset cam \<notin> set mid"
    and "contact_class ty2"
  shows "real_of_int cd \<le> t2 - l"
  using assms
proof (induction es arbitrary: g l mid ents)
  case Nil
  then show ?case by simp
next
  case (Cons e es)
  show ?case
  proof (cases e)
    case (FStep c now a)
    obtain g1 d where step: "guard_action c now g a = (g1, d)"
      by (cases "guard_action c now g a")
    obtain ents1 where rest: "run_flat g1 es = (g', ents1)"
      and ents: "ents = Decided (camera_id c) now (type a) (approved d) # ents1"
      using Cons.prems(1) FStep step by (auto split: prod.splits)
    from Cons.prems(2) FStep have ok: "cooldown_contact_s c = cd" "l \<le> now" "flat_ok cd now es"
      by simp_all
    show ?thesis
    proof (cases mid)
      case Nil
      with Cons.prems(4) ents have "camera_id c = cam" "now = t2" "type a = ty2" "approved d"
        by simp_all
      with guard_action_contact(1) [OF step] Cons.prems(3,6) ok(1) show ?thesis
        by simp
    next
      case (Cons m mid1)
      with Cons.prems(4) ents have ents1: "ents1 = mid1 @ Decided cam t2 ty2 True # post"
        by simp
      from Cons Cons.prems(5) have nr: "WasReset cam \<notin> set mid1"
        by simp
      from guard_action_last_contact [OF step, of cam] Cons.prems(3)
      obtain l1 where l1: "last_contact_time g1 cam = Some l1" "l \<le> l1" "l1 \<le> now"
        using ok(2) by auto
      from flat_ok_mono [OF ok(3) l1(3)] have "flat_ok cd l1 es" .
      from Cons.IH [OF rest this l1(1) ents1 nr Cons.prems(6)] l1(2) show ?thesis
        by simp
    qed
  next
    case (FReset cam')
    obtain ents1 where rest: "run_flat (reset_camera_state g cam') es = (g', ents1)"
      and ents: "ents = WasReset cam' # ents1"
      using Cons.prems(1) FReset by (auto split: prod.splits)
    from Cons.prems(4,5) ents obtain mid1 where mid: "mid = WasReset cam' # mid1"
      and ents1: "ents1 = mid1 @ Decided cam t2 ty2 True # post"
      by (cases mid) auto
    from mid Cons.prems(5) have ne: "cam' \<noteq> cam" and nr: "WasReset cam \<notin> set mid1"
      by auto
    from ne Cons.prems(3) have "last_contact_time (reset_camera_state g cam') cam = Some l"
      by (simp add: reset_camera_state_def)
    moreover from Cons.prems(2) FReset have "flat_ok cd l es"
      by simp
    ultimately show ?thesis
      using Cons.IH [OF rest _ _ ents1 nr Cons.prems(6)] by blast
  qed
qed

lemma run_flat_spacing:
  assumes "run_flat g es = (g', ents)"
    and "flat_ok cd lb es"
    and "ents = pre @ Decided cam t1 ty1 True # mid @ Decided cam t2 ty2 True # post"
    and "WasReset cam \<notin> set mid"
    and "contact_class ty1" and "contact_class ty2"
  shows "real_of_int cd \<le> t2 - t1"
  using assms
proof (induction es arbitrary: g lb pre ents)
  case Nil
  then show ?case by simp
next
  case (Cons e es)
  show ?case
  proof (cases e)
    case (FStep c now a)
    obtain g1 d where step: "guard_action c now g a = (g1, d)"
      by (cases "guard_action c now g a")
    obtain ents1 where rest: "run_flat g1 es = (g', ents1)"
      and ents: "ents = Decided (camera_id c) now (type a) (approved d) # ents1"
      using Cons.prems(1) FStep step by (auto split: prod.splits)
    from Cons.prems(2) FStep have ok: "flat_ok cd now es"
      by simp
    show ?thesis
    proof (cases pre)
      case Nil
      with Cons.prems(3) ents have eq: "camera_id c = cam" "now = t1" "type a = ty1" "approved d"
        and ents1: "ents1 = mid @ Decided cam t2 ty2 True # post"
        by simp_all
      from guard_action_contact(2) [OF step] eq Cons.prems(5)
      have "last_contact_time g1 cam = Some t1"
        by simp
      from run_flat_after_contact [OF rest _ this ents1 Cons.prems(4,6)] ok eq(2)
      show ?thesis by simp
    next
      case (Cons p pre1)
      with Cons.prems(3) ents
      have "ents1 = pre1 @ Decided cam t1 ty1 True # mid @ Decided cam t2 ty2 True # post"
        by simp
      from Cons.IH [OF rest ok this Cons.prems(4,5,6)] show ?thesis .
    qed
  next
    case (FReset cam')
    obtain ents1 where rest: "run_flat (reset_camera_state g cam') es = (g', ents1)"
      and ents: "ents = WasReset cam' # ents1"
      using Cons.prems(1) FReset by (auto split: prod.splits)
    from Cons.prems(3) ents obtain pre1 where
      "ents1 = pre1 @ Decided cam t1 ty1 True # mid @ Decided cam t2 ty2 True # post"
      by (cases pre) auto
    moreover from Cons.prems(2) FReset have "flat_ok cd lb es"
      by simp
    ultimately show ?thesis
      using Cons.IH [OF rest _ _ Cons.prems(4,5,6)] by blast
  qed
qed

text \<open>A call of \<open>approve_plan\<close> is the run of its unrolled steps.\<close>

lemma approve_loop_run_flat:
  assumes "approve_loop c now acts g apprvd decisions = (g', apprvd', decisions')"
  shows "\<exists>ds. decisions' = decisions @ ds \<and> length ds = length acts
           \<and> (\<forall>es. run_flat g (map (FStep c now) acts @ es)
                 = (case run_flat g' es of
                      (g'', ents) \<Rightarrow>
                        (g'', map (\<lambda>(a, d). Decided (camera_id c) now (type a) (approved d))
                                (zip acts ds) @ ents)))"
  using assms
proof (induction acts arbitrary: g apprvd decisions)
  case Nil
  then show ?case by simp
next
  case (Cons a rest)
  obtain g1 d where step: "guard_action c now g a = (g1, d)"
    by (cases "guard_action c now g a")
  from Cons.prems step
  have "approve_loop c now rest g1 (if approved d then apprvd @ [a] else apprvd)
          (decisions @ [d]) = (g', apprvd', decisions')"
    by simp
  from Cons.IH [OF this] obtain ds where
    ds: "decisions' = (decisions @ [d]) @ ds" "length ds = length rest"
      "\<And>es. run_flat g1 (map (FStep c now) rest @ es)
         = (case run_flat g' es of
              (g'', ents) \<Rightarrow>
                (g'', map (\<lambda>(a, d). Decided (camera_id c) now (type a) (approved d))
                        (zip rest ds) @ ents))"
    by blast
  have "run_flat g (map (FStep c now) (a # rest) @ es)
         = (case run_flat g' es of
              (g'', ents) \<Rightarrow>
                (g'', map (\<lambda>(a, d). Decided (camera_id c) now (type a) (approved d))
                        (zip (a # rest) (d # ds)) @ ents))" for es
    using step ds(3) [of es] by (simp split: prod.splits)
  then show ?case
    using ds(1,2) by (intro exI [of _ "d # ds"]) simp
qed

lemma run_guard_run_flat: "run_guard g trace = run_flat g (concat (map steps_of trace))"
proof (induction trace arbitrary: g)
  case Nil
  then show ?case by simp
next
  case (Cons e es)
  show ?case
  proof (cases e)
    case (Approve c now acts)
    obtain g1 apprvd decisions where call: "approve_plan g now acts c = (g1, apprvd, decisions)"
      by (cases "approve_plan g now acts c")
    then have "approve_loop c now acts g [] [] = (g1, apprvd, decisions)"
      by (simp add: approve_plan_def)
    from approve_loop_run_flat [OF this]
    have "run_flat g (map (FStep c now) acts @ concat (map steps_of es))
            = (case run_flat g1 (concat (map steps_of es)) of
                 (g'', ents) \<Rightarrow>
                   (g'', map (\<lambda>(a, d). Decided (camera_id c) now (type a) (approved d))
                           (zip acts decisions) @ ents))"
      by auto
    with Approve call Cons.IH [of g1] show ?thesis
      by simp
  next
    case (Reset cam)
    with Cons.IH [of "reset_camera_state g cam"] show ?thesis
      by simp
  qed
qed

lemma flat_ok_steps:
  assumes "flat_ok cd now fs" and "cooldown_contact_s c = cd" and "lb \<le> now"
  shows "flat_ok cd lb (map (FStep c now) acts @ fs)"
proof (cases acts)
  case Nil
  with flat_ok_mono [OF assms(1,3)] show ?thesis by simp
next
  case (Cons a rest)
  have "flat_ok cd now (map (FStep c now) xs @ fs)" for xs
    using assms(1,2) by (induction xs) simp_all
  with Cons assms(2,3) show ?thesis by simp
qed

lemma flat_ok_trace:
  assumes "list_all (uses_cooldown cd) trace" and "sorted (event_times trace)"
    and "\<forall>t \<in> set (event_times trace). lb \<le> t"
  shows "flat_ok cd lb (concat (map steps_of trace))"
  using assms
proof (induction trace arbitrary: lb)
  case Nil
  then show ?case by simp
next
  case (Cons e es)
  show ?case
  proof (cases e)
    case (Approve c now acts)
    with Cons.prems have "list_all (uses_cooldown cd) es" "sorted (event_times es)"
      "\<forall>t \<in> set (event_times es). now \<le> t" "cooldown_contact_s c = cd" "lb \<le> now"
      by simp_all
    with Cons.IH [of now] flat_ok_steps [of cd now _ c lb acts] Approve show ?thesis
      by simp
  next
    case (Reset cam)
    with Cons.prems Cons.IH [of lb] show ?thesis
      by simp
  qed
qed

text \<open>
  C6, as the code has it. \<open>approve_plan\<close> takes its evaluation time from the wall
  clock \<open>time.time()\<close>, and the property needs readings that do not go backwards.
  Take any history of guard evaluations and resets in which every call uses the
  cooldown \<open>cooldown_contact_s = cd\<close> and the clock readings of successive calls do not
  decrease. If two contact-class decisions (\<open>SEND_SMS_PRIMARY\<close>,
  \<open>START_VOICE_CALL_PRIMARY\<close>, \<open>SEND_LOW_PRIORITY_HEADSUP\<close>) on the same camera are
  both approved and the camera is not reset between them, their evaluation times differ
  by at least \<open>cd\<close>. Hence of two contact-class actions on a camera evaluated less than
  the cooldown apart with no intervening reset, at most one is approved.
\<close>

theorem contact_cooldown_spacing:
  assumes "run_guard g trace = (g', ents)"
    and "list_all (uses_cooldown cd) trace"
    and "sorted (event_times trace)"
    and "ents = pre @ Decided cam t ty True # mid @ Decided cam t' ty' True # post"
    and "WasReset cam \<notin> set mid"
    and "contact_class ty" and "contact_class ty'"
  shows "real_of_int cd \<le> t' - t \<and> \<not> \<bar>t' - t\<bar> < real_of_int cd"
proof -
  obtain lb where lb: "\<forall>t \<in> set (event_times trace). lb \<le> t"
    using assms(3) by (cases "event_times trace") (auto intro: that)
  from assms(1) have "run_flat g (concat (map steps_of trace)) = (g', ents)"
    by (simp add: run_guard_run_flat)
  from run_flat_spacing [OF this flat_ok_trace [OF assms(2,3) lb] assms(4,5,6,7)]
  show ?thesis by simp
qed

text \<open>Three calls on one camera with the default cooldown 5, at clock readings 1000,
  1003 and 1006: the first SMS is approved, the voice call of the same plan and the SMS
  at 1003 are rejected, the SMS at 1006 is approved.\<close>

theorem contact_cooldown_spacing_witness:
  "run_guard \<lparr>last_contact_time = Map.empty, primary_call_counts = Map.empty\<rparr>
     [Approve \<lparr>camera_id = ''cam-1'', acknowledged = False, voice_enabled = True,
         sms_enabled = True, escalation_stage = 0, cooldown_contact_s = 5,
         max_primary_call_attempts = 2, max_escalation_stage = 2\<rparr> 1000
        [\<lparr>type = SEND_SMS_PRIMARY, delay_s = 0, params = Map.empty\<rparr>,
         \<lparr>type = START_VOICE_CALL_PRIMARY, delay_s = 1, params = Map.empty\<rparr>],
      Approve \<lparr>camera_id = ''cam-1'', acknowledged = False, voice_enabled = True,
         sms_enabled = True, escalation_stage = 0, cooldown_contact_s = 5,
         max_primary_call_attempts = 2, max_escalation_stage = 2\<rparr> 1003
        [\<lparr>type = SEND_SMS_PRIMARY, delay_s = 0, params = Map.empty\<rparr>],
      Approve \<lparr>camera_id = ''cam-1'', acknowledged = False, voice_enabled = True,
         sms_enabled = True, escalation_stage = 0, cooldown_contact_s = 5,
         max_primary_call_attempts = 2, max_escalation_stage = 2\<rparr> 1006
        [\<lparr>type = SEND_SMS_PRIMARY, delay_s = 0, params = Map.empty\<rparr>]]
   = (\<lparr>last_contact_time = [''cam-1'' \<mapsto> 1006], primary_call_counts = Map.empty\<rparr>,
      [Decided ''cam-1'' 1000 SEND_SMS_PRIMARY True,
       Decided ''cam-1'' 1000 START_VOICE_CALL_PRIMARY False,
       Decided ''cam-1'' 1003 SEND_SMS_PRIMARY False,
       Decided ''cam-1'' 1006 SEND_SMS_PRIMARY True])
   \<and> real_of_int 5 \<le> (1006::real) - 1000
   \<and> \<not> \<bar>(1006::real) - 1000\<bar> < real_of_int 5"
proof -
  let ?c = "\<lparr>camera_id = ''cam-1'', acknowledged = False, voice_enabled = True,
      sms_enabled = True, escalation_stage = 0, cooldown_contact_s = 5,
      max_primary_call_attempts = 2, max_escalation_stage = 2\<rparr>"
  let ?sms = "\<lparr>type = SEND_SMS_PRIMARY, delay_s = 0, params = Map.empty\<rparr>"
  let ?voice = "\<lparr>type = START_VOICE_CALL_PRIMARY, delay_s = 1, params = Map.empty\<rparr>"
  have run: "run_guard \<lparr>last_contact_time = Map.empty, primary_call_counts = Map.empty\<rparr>
      [Approve ?c 1000 [?sms, ?voice], Approve ?c 1003 [?sms], Approve ?c 1006 [?sms]]
    = (\<lparr>last_contact_time = [''cam-1'' \<mapsto> 1006], primary_call_counts = Map.empty\<rparr>,
       [Decided ''cam-1'' 1000 SEND_SMS_PRIMARY True,
        Decided ''cam-1'' 1000 START_VOICE_CALL_PRIMARY False,
        Decided ''cam-1'' 1003 SEND_SMS_PRIMARY False,
        Decided ''cam-1'' 1006 SEND_SMS_PRIMARY True])"
    by (simp add: approve_plan_def guard_action_def Let_def)
  have "real_of_int 5 \<le> (1006::real) - 1000 \<and> \<not> \<bar>(1006::real) - 1000\<bar> < real_of_int 5"
    using contact_cooldown_spacing [OF run, where cd = 5 and pre = "[]" and cam = "''cam-1''"
        and t = 1000 and ty = SEND_SMS_PRIMARY
        and mid = "[Decided ''cam-1'' 1000 START_VOICE_CALL_PRIMARY False,
                    Decided ''cam-1'' 1003 SEND_SMS_PRIMARY False]"
        and t' = 1006 and ty' = SEND_SMS_PRIMARY and post = "[]"]
    by (simp add: contact_class_def)
  with run show ?thesis
    by simp
qed

text \<open>Without the condition on the clock the property fails. An approved
  \<open>ESCALATE_TO_BACKUP\<close> overwrites \<open>_last_contact_time\<close> with the reading of its
  call. With cooldown 5, an SMS evaluated at 1000, an escalation evaluated at a reading
  of 990 and an SMS evaluated at 996 are all approved: two approved contact-class
  actions on one camera 4 seconds apart, with no reset between them.\<close>

theorem contact_cooldown_backwards_clock_counterexample:
  "run_guard \<lparr>last_contact_time = Map.empty, primary_call_counts = Map.empty\<rparr>
     [Approve \<lparr>camera_id = ''cam-1'', acknowledged = False, voice_enabled = True,
         sms_enabled = True, escalation_stage = 0, cooldown_contact_s = 5,
         max_primary_call_attempts = 2, max_escalation_stage = 2\<rparr> 1000
        [\<lparr>type = SEND_SMS_PRIMARY, delay_s = 0, params = Map.empty\<rparr>],
      Approve \<lparr>camera_id = ''cam-1'', acknowledged = False, voice_enabled = True,
         sms_enabled = True, escalation_stage = 0, cooldown_contact_s = 5,
         max_primary_call_attempts = 2, max_escalation_stage = 2\<rparr> 990
        [\<lparr>type = ESCALATE_TO_BACKUP, delay_s = 0, params = Map.empty\<rparr>],
      Approve \<lparr>camera_id = ''cam-1'', acknowledged = False, voice_enabled = True,
         sms_enabled = True, escalation_stage = 0, cooldown_contact_s = 5,
         max_primary_call_attempts = 2, max_escalation_stage = 2\<rparr> 996
        [\<lparr>type = SEND_SMS_PRIMARY, delay_s = 0, params = Map.empty\<rparr>]]
   = (\<lparr>last_contact_time = [''cam-1'' \<mapsto> 996], primary_call_counts = Map.empty\<rparr>,
      [Decided ''cam-1'' 1000 SEND_SMS_PRIMARY True,
       Decided ''cam-1'' 990 ESCALATE_TO_BACKUP True,
       Decided ''cam-1'' 996 SEND_SMS_PRIMARY True])
   \<and> contact_class SEND_SMS_PRIMARY
   \<and> (0::int) < 5
   \<and> \<bar>(996::real) - 1000\<bar> < real_of_int 5"
  by (simp add: approve_plan_def guard_action_def Let_def contact_class_def)
subsection \<open>Acknowledgement and the guard's state\<close>

lemma reset_camera_state_clears:
  "last_contact_time (reset_camera_state g cam) cam = None
   \<and> primary_call_counts (reset_camera_state g cam) cam = None"
  by (simp add: reset_camera_state_def)

lemma single_row:
  assumes "filter (\<lambda>i. inc_id i = incident_id) rows = [inc]"
  shows "inc_id inc = incident_id"
    and "scalar_one_or_none (filter (\<lambda>i. inc_id i = incident_id) rows) = Inr (Some inc)"
    and "r \<in> set rows \<Longrightarrow> inc_id r = incident_id \<Longrightarrow> r = inc"
proof -
  have "inc \<in> set (filter (\<lambda>i. inc_id i = incident_id) rows)"
    using assms by simp
  then show "inc_id inc = incident_id" by simp
  show "scalar_one_or_none (filter (\<lambda>i. inc_id i = incident_id) rows) = Inr (Some inc)"
    using assms by (simp add: scalar_one_or_none_def)
  assume "r \<in> set rows" "inc_id r = incident_id"
  then have "r \<in> set (filter (\<lambda>i. inc_id i = incident_id) rows)" by simp
  with assms show "r = inc" by simp
qed

text \<open>
  C5, as the code has it. Acknowledging an incident whose status is \<open>CLOSED\<close> returns
  success, and it is not a no-op: the handler has no check of the status, so the row is
  written with \<open>status = ACKED\<close>, \<open>acknowledged = true\<close> and \<open>ack_by\<close> the caller's
  name; its verdict and every other row are left as they were, and the guard's state of
  the incident's camera is reset.
\<close>

theorem acknowledge_closed_incident_overwrites:
  assumes "filter (\<lambda>i. inc_id i = incident_id) (incidents w) = [inc]"
    and "inc_status inc = ''CLOSED''"
  shows "\<exists>w'. acknowledge_incident w incident_id who
             = Inr (w', [(''status'', ''acknowledged''), (''incident_id'', incident_id)])
         \<and> incidents w'
             = map (\<lambda>r. if inc_id r = incident_id
                         then r\<lparr>inc_acknowledged := True, inc_ack_by := Some who,
                                inc_status := ''ACKED''\<rparr>
                         else r) (incidents w)
         \<and> filter (\<lambda>i. inc_id i = incident_id) (incidents w')
             = [inc\<lparr>inc_acknowledged := True, inc_ack_by := Some who, inc_status := ''ACKED''\<rparr>]
         \<and> map inc_verdict (incidents w') = map inc_verdict (incidents w)
         \<and> guard w' = reset_camera_state (guard w) (inc_camera_id inc)"
proof -
  note row = single_row [OF assms(1)]
  let ?inc' = "inc\<lparr>inc_acknowledged := True, inc_ack_by := Some who, inc_status := ''ACKED''\<rparr>"
  let ?upd = "\<lambda>r. if inc_id r = incident_id
                   then r\<lparr>inc_acknowledged := True, inc_ack_by := Some who,
                          inc_status := ''ACKED''\<rparr>
                   else r"
  let ?w' = "log_event incident_id (inc_camera_id inc) ''ACK_RECEIVED''
               ((cancel_replan incident_id (commit_incident ?inc' w))
                  \<lparr>guard := reset_camera_state (guard w) (inc_camera_id inc)\<rparr>)"
  have call: "acknowledge_incident w incident_id who
                = Inr (?w', [(''status'', ''acknowledged''), (''incident_id'', incident_id)])"
    using row(2)
    by (simp add: acknowledge_incident_def Let_def commit_incident_def cancel_replan_def
        log_event_def)
  have "incidents ?w' = map (\<lambda>r. if inc_id r = inc_id ?inc' then ?inc' else r) (incidents w)"
    by (simp add: commit_incident_def cancel_replan_def log_event_def)
  also have "\<dots> = map ?upd (incidents w)"
    using row(1,3) by (intro map_cong) auto
  finally have incs: "incidents ?w' = map ?upd (incidents w)" .
  have "filter (\<lambda>i. inc_id i = incident_id) (map ?upd (incidents w))
          = map ?upd (filter (\<lambda>i. inc_id i = incident_id) (incidents w))"
    by (induction "incidents w") (auto simp add: filter_map comp_def)
  also have "\<dots> = [?inc']"
    using row(1) by (simp only: assms(1)) simp
  finally have one: "filter (\<lambda>i. inc_id i = incident_id) (incidents ?w') = [?inc']"
    by (simp only: incs)
  have "map inc_verdict (map ?upd (incidents w)) = map inc_verdict (incidents w)"
    by (simp add: comp_def if_distrib cong: if_cong)
  then have verdicts: "map inc_verdict (incidents ?w') = map inc_verdict (incidents w)"
    by (simp only: incs)
  have g: "guard ?w' = reset_camera_state (guard w) (inc_camera_id inc)"
    by (simp add: log_event_def)
  from call incs one verdicts g show ?thesis
    by (intro exI [of _ ?w']) (simp only: simp_thms)
qed

theorem acknowledge_closed_incident_overwrites_witness:
  "filter (\<lambda>i. inc_id i = ''inc-1'') (incidents closed_world) = [closed_incident]
   \<and> inc_status closed_incident = ''CLOSED''
   \<and> (\<exists>w'. acknowledge_incident closed_world ''inc-1'' ''caregiver''
              = Inr (w', [(''status'', ''acknowledged''), (''incident_id'', ''inc-1'')])
          \<and> map inc_status (incidents w') = [''ACKED'']
          \<and> map inc_ack_by (incidents w') = [Some ''caregiver'']
          \<and> map inc_verdict (incidents w') = [''FALSE_ALARM''])"
proof -
  have rows: "filter (\<lambda>i. inc_id i = ''inc-1'') (incidents closed_world) = [closed_incident]"
    and st: "inc_status closed_incident = ''CLOSED''"
    by (simp_all add: closed_world_def closed_incident_def sample_incident_def)
  from acknowledge_closed_incident_overwrites [OF rows st, of "''caregiver''"]
  obtain w' where
    "acknowledge_incident closed_world ''inc-1'' ''caregiver''
       = Inr (w', [(''status'', ''acknowledged''), (''incident_id'', ''inc-1'')])"
    "filter (\<lambda>i. inc_id i = ''inc-1'') (incidents w')
       = [closed_incident\<lparr>inc_acknowledged := True, inc_ack_by := Some ''caregiver'',
                           inc_status := ''ACKED''\<rparr>]"
    "incidents w'
       = map (\<lambda>r. if inc_id r = ''inc-1''
                   then r\<lparr>inc_acknowledged := True, inc_ack_by := Some ''caregiver'',
                          inc_status := ''ACKED''\<rparr>
                   else r) (incidents closed_world)"
    by blast
  then show ?thesis
    using rows st
    by (intro conjI exI [of _ w'])
       (simp_all add: closed_world_def closed_incident_def sample_incident_def)
qed

text \<open>The claim as the specification states it (acknowledging a closed incident
  changes nothing) fails on the incident closed as a false alarm: the stored status was
  \<open>CLOSED\<close> with no \<open>ack_by\<close>, and after the call it is \<open>ACKED\<close> with
  \<open>ack_by = caregiver\<close>.\<close>

theorem acknowledge_closed_incident_counterexample:
  "\<exists>w' r. acknowledge_incident closed_world ''inc-1'' ''caregiver'' = Inr (w', r)
      \<and> map inc_status (incidents closed_world) = [''CLOSED'']
      \<and> map inc_ack_by (incidents closed_world) = [None]
      \<and> map inc_status (incidents w') = [''ACKED'']
      \<and> map inc_ack_by (incidents w') = [Some ''caregiver'']"
  by (simp add: acknowledge_incident_def scalar_one_or_none_def Let_def commit_incident_def
      cancel_replan_def log_event_def closed_world_def closed_incident_def sample_world_def
      sample_incident_def)

text \<open>
  C7. After an acknowledgement or a false alarm the guard's state of the camera should
  be empty, also when the acknowledgement comes through the DTMF webhook. Digit 2
  (acknowledge, will call) marks the incident \<open>ACKED\<close> and cancels the replan loop like
  digit 1 does, and does not call \<open>reset_camera_state\<close>: on the sample world the
  camera's \<open>last_contact\<close> and call count survive digit 2 and are cleared by digit 1.
\<close>

theorem dtmf_will_call_keeps_guard_state:
  "(case dtmf_webhook sample_world ''inc-1'' ''2'' of
      Inl e \<Rightarrow> False
    | Inr (w, msg) \<Rightarrow>
        map inc_status (incidents w) = [''ACKED'']
        \<and> map inc_acknowledged (incidents w) = [True]
        \<and> map ev_kind (timeline w) = [''ACK_RECEIVED'']
        \<and> last_contact_time (guard w) ''cam-1'' = Some 1000
        \<and> primary_call_counts (guard w) ''cam-1'' = Some 1)
   \<and> (case dtmf_webhook sample_world ''inc-1'' ''1'' of
        Inl e \<Rightarrow> False
      | Inr (w, msg) \<Rightarrow>
          map inc_status (incidents w) = [''ACKED'']
          \<and> last_contact_time (guard w) ''cam-1'' = None
          \<and> primary_call_counts (guard w) ''cam-1'' = None)"
  by (simp add: dtmf_webhook_def scalar_one_or_none_def Let_def commit_incident_def
      cancel_replan_def log_event_def reset_camera_state_def strip_def is_space_def
      sample_world_def sample_incident_def)

text \<open>The paths that do reset: \<open>acknowledge_incident\<close>, \<open>false_alarm\<close>, and the
  digits 1 and 4 of the webhook leave the camera's guard state empty.\<close>

lemma resetting_paths_clear_guard:
  assumes "filter (\<lambda>i. inc_id i = incident_id) (incidents w) = [inc]"
  shows "\<exists>w' r. acknowledge_incident w incident_id who = Inr (w', r)
           \<and> last_contact_time (guard w') (inc_camera_id inc) = None
           \<and> primary_call_counts (guard w') (inc_camera_id inc) = None"
    and "\<exists>w' r. false_alarm w incident_id = Inr (w', r)
           \<and> last_contact_time (guard w') (inc_camera_id inc) = None
           \<and> primary_call_counts (guard w') (inc_camera_id inc) = None"
    and "strip Digits = ''1'' \<or> strip Digits = ''4'' \<Longrightarrow>
         \<exists>w' r. dtmf_webhook w incident_id Digits = Inr (w', r)
           \<and> last_contact_time (guard w') (inc_camera_id inc) = None
           \<and> primary_call_counts (guard w') (inc_camera_id inc) = None"
  using single_row(2) [OF assms]
  by (auto simp add: acknowledge_incident_def false_alarm_def dtmf_webhook_def Let_def
      commit_incident_def cancel_replan_def log_event_def reset_camera_state_def)

subsection \<open>Executor\<close>

text \<open>
  C9. When the incident an action refers to does not exist at execution time, the action
  should be aborted with a \<open>PLAN_FAILED\<close> event and must not report success.
  \<open>_run_action\<close> looks the incident up for \<open>CLOSE_INCIDENT\<close>, closes it only
  \<open>if incident\<close>, and returns \<open>"Incident closed"\<close> in either case: for an
  incident id no row has, the store is untouched, the result string reports success,
  \<open>execute_actions\<close> records it in the action log and emits \<open>ACTION_EXECUTED\<close>,
  and no \<open>PLAN_FAILED\<close> event appears.
\<close>

theorem close_missing_incident_reports_success:
  "run_action e sample_world \<lparr>type = CLOSE_INCIDENT, delay_s = 0, params = Map.empty\<rparr>
       ''no-such-incident'' ''cam-1'' ''+15550001'' ''+15550002'' ''''
     = (sample_world, ''Incident closed'')
   \<and> incidents (execute_actions e sample_world
          [\<lparr>type = CLOSE_INCIDENT, delay_s = 0, params = Map.empty\<rparr>]
          ''no-such-incident'' ''cam-1'' ''+15550001'' ''+15550002'' '''')
       = incidents sample_world
   \<and> map al_result (action_log (execute_actions e sample_world
          [\<lparr>type = CLOSE_INCIDENT, delay_s = 0, params = Map.empty\<rparr>]
          ''no-such-incident'' ''cam-1'' ''+15550001'' ''+15550002'' ''''))
       = [''Incident closed'']
   \<and> map ev_kind (timeline (execute_actions e sample_world
          [\<lparr>type = CLOSE_INCIDENT, delay_s = 0, params = Map.empty\<rparr>]
          ''no-such-incident'' ''cam-1'' ''+15550001'' ''+15550002'' ''''))
       = [''ACTION_EXECUTED'']"
  by (simp add: run_action_def scalar_one_or_none_def log_event_def sample_world_def
      sample_incident_def)

text \<open>The executor writes no incident field but \<open>status\<close>, keeps every row in place,
  and only appends to the timeline.\<close>

lemma run_action_frame:
  assumes "run_action e w a incident_id cam p b s = (w', result)"
    and "\<And>r v. P (r\<lparr>inc_status := v\<rparr>) = P r"
  shows "map P (incidents w') = map P (incidents w)"
    and "timeline w' = timeline w" and "cameras w' = cameras w" and "guard w' = guard w"
    and "incident_plans w' = incident_plans w" and "planner_calls w' = planner_calls w"
    and "action_log w' = action_log w" and "active_replan_tasks w' = active_replan_tasks w"
proof -
  have keep: "map P (incidents (commit_incident (i\<lparr>inc_status := ''CLOSED''\<rparr>) w))
                = map P (incidents w)"
    if "filter (\<lambda>r. inc_id r = incident_id) (incidents w) = [i]" for i
    using single_row(1,3) [OF that] assms(2)
    by (auto simp add: commit_incident_def intro!: map_cong)
  show "map P (incidents w') = map P (incidents w)"
    using assms(1) keep
    by (cases "type a")
       (auto simp add: run_action_def Let_def scalar_one_or_none_def
          split: list.splits)
  show "timeline w' = timeline w" "cameras w' = cameras w" "guard w' = guard w"
    "incident_plans w' = incident_plans w" "planner_calls w' = planner_calls w"
    "action_log w' = action_log w" "active_replan_tasks w' = active_replan_tasks w"
    using assms(1)
    by (cases "type a";
        auto simp add: run_action_def Let_def commit_incident_def
          split: sum.splits option.splits)+
qed

lemma execute_actions_frame:
  assumes "\<And>r v. P (r\<lparr>inc_status := v\<rparr>) = P r"
  shows "map P (incidents (execute_actions e w acts incident_id cam p b s)) = map P (incidents w)"
    and "\<exists>evs. timeline (execute_actions e w acts incident_id cam p b s) = timeline w @ evs"
    and "cameras (execute_actions e w acts incident_id cam p b s) = cameras w"
    and "incident_plans (execute_actions e w acts incident_id cam p b s) = incident_plans w"
    and "planner_calls (execute_actions e w acts incident_id cam p b s) = planner_calls w"
    and "guard (execute_actions e w acts incident_id cam p b s) = guard w"
proof -
  have "map P (incidents (execute_actions e w acts incident_id cam p b s)) = map P (incidents w)
      \<and> (\<exists>evs. timeline (execute_actions e w acts incident_id cam p b s) = timeline w @ evs)
      \<and> cameras (execute_actions e w acts incident_id cam p b s) = cameras w
      \<and> incident_plans (execute_actions e w acts incident_id cam p b s) = incident_plans w
      \<and> planner_calls (execute_actions e w acts incident_id cam p b s) = planner_calls w
      \<and> guard (execute_actions e w acts incident_id cam p b s) = guard w"
  proof (induction acts arbitrary: w)
    case Nil
    then show ?case by simp
  next
    case (Cons a rest)
    obtain w1 result where step: "run_action e w a incident_id cam p b s = (w1, result)"
      by (cases "run_action e w a incident_id cam p b s")
    let ?w2 = "log_event incident_id cam ''ACTION_EXECUTED''
        (w1\<lparr>action_log := action_log w1
               @ [\<lparr>al_incident_id = incident_id, al_camera_id = cam,
                    al_action_type = ActionType_value (type a),
                    al_params = params a, al_result = result\<rparr>]\<rparr>)"
    have ex: "execute_actions e w (a # rest) incident_id cam p b s
                = execute_actions e ?w2 rest incident_id cam p b s"
      using step by (simp add: Let_def)
    note f = run_action_frame [OF step assms]
    have w2: "incidents ?w2 = incidents w1" "timeline ?w2 = timeline w1 @
        [\<lparr>ev_incident_id = incident_id, ev_camera_id = cam, ev_kind = ''ACTION_EXECUTED''\<rparr>]"
      "cameras ?w2 = cameras w1" "incident_plans ?w2 = incident_plans w1"
      "planner_calls ?w2 = planner_calls w1" "guard ?w2 = guard w1"
      by (simp_all add: log_event_def)
    from Cons.IH [of ?w2] show ?case
      unfolding ex using f w2 by auto
  qed
  then show "map P (incidents (execute_actions e w acts incident_id cam p b s)) = map P (incidents w)"
    and "\<exists>evs. timeline (execute_actions e w acts incident_id cam p b s) = timeline w @ evs"
    and "cameras (execute_actions e w acts incident_id cam p b s) = cameras w"
    and "incident_plans (execute_actions e w acts incident_id cam p b s) = incident_plans w"
    and "planner_calls (execute_actions e w acts incident_id cam p b s) = planner_calls w"
    and "guard (execute_actions e w acts incident_id cam p b s) = guard w"
    by simp_all
qed

subsection \<open>Planner retry and fallback\<close>

lemma fallback_plan_fields:
  "verdict (fallback_plan m v) = POSSIBLE_FALL"
  "severity_seed (fallback_plan m v) = (if m > 0.8 then 4 else 3)"
  "confidence (fallback_plan m v) = 0.3"
  "reasons (fallback_plan m v)
     = [''Fallback plan: Gemini unavailable or returned invalid response'']"
  "actions (fallback_plan m v)
     = \<lparr>type = SEND_SMS_PRIMARY, delay_s = 0, params = Map.empty\<rparr>
       # (if v \<and> 4 \<le> severity_seed (fallback_plan m v)
          then [\<lparr>type = START_VOICE_CALL_PRIMARY, delay_s = 1.0, params = Map.empty\<rparr>]
          else [])"
  "replan_interval_s (fallback_plan m v) = 5.0"
  by (simp_all add: fallback_plan_def Let_def)

text \<open>
  C3, as the code has it. When the planner's first answer does not parse,
  \<open>handle_incident\<close> asks exactly once more, sending the first two frames of the packet
  where the first call sent the first four. When the retry raises or its answer does not
  parse either, the plan is the fallback plan: verdict \<open>POSSIBLE_FALL\<close>, severity seed 4
  if \<open>motion > 0.8\<close> else 3, confidence 0.3, the single reason
  \<open>"Fallback plan: Gemini unavailable or returned invalid response"\<close>, the actions
  \<open>SEND_SMS_PRIMARY\<close> with delay 0 followed by \<open>START_VOICE_CALL_PRIMARY\<close> with delay
  1.0 exactly when voice is enabled and the seed is at least 4, and a replan interval of
  5.0 seconds.
\<close>

theorem planner_retry_then_fallback:
  assumes "incident_plan e 0 (take 4 (pkt_frames_jpeg_base64 packet)) = Inr raw"
    and "parse_plan e raw = None"
  shows "\<exists>p. plan_incident_with_retry e packet voice
               = Inr (p, [take 4 (pkt_frames_jpeg_base64 packet),
                          take 2 (pkt_frames_jpeg_base64 packet)])
           \<and> ((case incident_plan e 1 (take 2 (pkt_frames_jpeg_base64 packet)) of
                  Inl err \<Rightarrow> True
                | Inr raw' \<Rightarrow> parse_plan e raw' = None)
                \<longrightarrow> p = fallback_plan (pkt_motion_energy packet) voice
                    \<and> verdict p = POSSIBLE_FALL
                    \<and> severity_seed p = (if pkt_motion_energy packet > 0.8 then 4 else 3)
                    \<and> confidence p = 0.3
                    \<and> reasons p
                        = [''Fallback plan: Gemini unavailable or returned invalid response'']
                    \<and> actions p
                        = \<lparr>type = SEND_SMS_PRIMARY, delay_s = 0, params = Map.empty\<rparr>
                          # (if voice \<and> 4 \<le> severity_seed p
                             then [\<lparr>type = START_VOICE_CALL_PRIMARY, delay_s = 1.0,
                                     params = Map.empty\<rparr>]
                             else [])
                    \<and> replan_interval_s p = 5.0)"
proof (cases "incident_plan e 1 (take 2 (pkt_frames_jpeg_base64 packet))")
  case (Inl err)
  with assms have "plan_incident_with_retry e packet voice
      = Inr (fallback_plan (pkt_motion_energy packet) voice,
             [take 4 (pkt_frames_jpeg_base64 packet), take 2 (pkt_frames_jpeg_base64 packet)])"
    by (simp add: plan_incident_with_retry_def Let_def)
  then show ?thesis
    using fallback_plan_fields [of "pkt_motion_energy packet" voice] by simp
next
  case (Inr raw')
  show ?thesis
  proof (cases "parse_plan e raw'")
    case None
    with Inr assms have "plan_incident_with_retry e packet voice
        = Inr (fallback_plan (pkt_motion_energy packet) voice,
               [take 4 (pkt_frames_jpeg_base64 packet), take 2 (pkt_frames_jpeg_base64 packet)])"
      by (simp add: plan_incident_with_retry_def Let_def)
    then show ?thesis
      using fallback_plan_fields [of "pkt_motion_energy packet" voice] by simp
  next
    case (Some p)
    with Inr assms have "plan_incident_with_retry e packet voice
        = Inr (p, [take 4 (pkt_frames_jpeg_base64 packet),
                   take 2 (pkt_frames_jpeg_base64 packet)])"
      by (simp add: plan_incident_with_retry_def Let_def)
    with Inr Some show ?thesis by simp
  qed
qed

theorem planner_retry_then_fallback_witness:
  "incident_plan sample_env 0 (take 4 (pkt_frames_jpeg_base64 sample_packet))
     = Inr ''I cannot help with that''
   \<and> parse_plan sample_env ''I cannot help with that'' = None
   \<and> plan_incident_with_retry sample_env sample_packet True
       = Inr (fallback_plan 0.2 True,
              [[''frame-1'', ''frame-2'', ''frame-3''], [''frame-1'', ''frame-2'']])
   \<and> severity_seed (fallback_plan 0.2 True) = 3
   \<and> actions (fallback_plan 0.2 True)
       = [\<lparr>type = SEND_SMS_PRIMARY, delay_s = 0, params = Map.empty\<rparr>]"
proof -
  have a: "incident_plan sample_env 0 (take 4 (pkt_frames_jpeg_base64 sample_packet))
             = Inr ''I cannot help with that''"
    and b: "parse_plan sample_env ''I cannot help with that'' = None"
    by (simp_all add: sample_env_def)
  from planner_retry_then_fallback [OF a b, of True] a b show ?thesis
    by (auto simp add: sample_env_def sample_packet_def)
qed

text \<open>The reason string the specification gives is not the one the fallback plan
  carries.\<close>

theorem planner_fallback_reason_counterexample:
  "\<exists>p calls. plan_incident_with_retry sample_env sample_packet True = Inr (p, calls)
      \<and> parse_plan sample_env ''I cannot help with that'' = None
      \<and> reasons p \<noteq> [''Fallback plan: planner unavailable or invalid'']"
  by (simp add: plan_incident_with_retry_def Let_def sample_env_def sample_packet_def
      fallback_plan_def)

subsection \<open>A trigger on a camera with an active incident\<close>

lemma one_row: "filter P rows = [x] \<Longrightarrow> scalar_one_or_none (filter P rows) = Inr (Some x)"
  by (simp add: scalar_one_or_none_def)

lemma one_row': "filter P rows = [x] \<Longrightarrow> scalar_one (filter P rows) = Inr x"
  by (simp add: scalar_one_def)

text \<open>The planning block returns exactly when the planner's first call returns.\<close>

lemma plan_incident_with_retry_returns:
  assumes "incident_plan e 0 (take 4 (pkt_frames_jpeg_base64 packet)) = Inr raw"
  shows "\<exists>p calls. plan_incident_with_retry e packet voice = Inr (p, calls)"
  using assms
  by (simp add: plan_incident_with_retry_def Let_def split: sum.splits option.splits prod.splits)

lemma plan_incident_with_retry_raises:
  assumes "incident_plan e 0 (take 4 (pkt_frames_jpeg_base64 packet)) = Inl err"
  shows "plan_incident_with_retry e packet voice = Inl err"
  using assms by (simp add: plan_incident_with_retry_def)

text \<open>What \<open>handle_incident\<close> does when the camera has exactly one active incident
  and the planner's first call returns.\<close>

lemma handle_incident_on_active:
  assumes "filter (\<lambda>c. cam_id c = pkt_camera_id packet) (cameras w) = [camera]"
    and "filter (\<lambda>i. inc_camera_id i = pkt_camera_id packet \<and> inc_status i = ''ACTIVE'')
           (incidents w) = [existing]"
    and "filter (\<lambda>i. inc_id i = inc_id existing) (incidents w) = [existing]"
    and "plan_incident_with_retry e packet (cam_voice_enabled camera) = Inr (p, calls)"
  shows "\<exists>w' n. handle_incident e w packet
                 = (w', Inr (Handled (inc_id existing) (inc_plan_version existing + 1)
                               (Verdict_value (verdict p)) (severity_seed p) n))
           \<and> map inc_id (incidents w') = map inc_id (incidents w)
           \<and> map inc_frames_b64 (incidents w') = map inc_frames_b64 (incidents w)
           \<and> map inc_plan_version (incidents w')
               = map (\<lambda>i. if inc_id i = inc_id existing then inc_plan_version i + 1
                           else inc_plan_version i) (incidents w)
           \<and> map inc_severity_seed (incidents w')
               = map (\<lambda>i. if inc_id i = inc_id existing then severity_seed p
                           else inc_severity_seed i) (incidents w)
           \<and> map inc_severity_current (incidents w')
               = map (\<lambda>i. if inc_id i = inc_id existing then severity_seed p
                           else inc_severity_current i) (incidents w)
           \<and> incident_plans w'
               = incident_plans w
                 @ [\<lparr>ip_incident_id = inc_id existing,
                      ip_version = inc_plan_version existing + 1,
                      ip_model_used = ''fast'', ip_plan = p\<rparr>]
           \<and> planner_calls w' = planner_calls w @ calls
           \<and> (\<exists>evs. timeline w'
                 = timeline w
                   @ \<lparr>ev_incident_id = inc_id existing, ev_camera_id = pkt_camera_id packet,
                       ev_kind = ''TRIGGER_RECEIVED''\<rparr> # evs)"
proof -
  let ?cam = "pkt_camera_id packet"
  let ?id = "inc_id existing"
  let ?inc = "existing\<lparr>inc_plan_version := inc_plan_version existing + 1,
                inc_severity_seed := severity_seed p,
                inc_severity_current := severity_seed p,
                inc_verdict := Verdict_value (verdict p),
                inc_confidence := confidence p,
                inc_reasons_current := Some (reasons p)\<rparr>"
  let ?inc' = "?inc\<lparr>inc_summary_text := Some (generate_summary e ?inc)\<rparr>"
  let ?w1 = "(log_event ?id ?cam ''TRIGGER_RECEIVED'' w)
               \<lparr>planner_calls := planner_calls w @ calls\<rparr>"
  let ?w2 = "log_event ?id ?cam ''PLAN_CREATED''
               ((commit_incident ?inc' ?w1)
                  \<lparr>incident_plans := incident_plans w
                      @ [\<lparr>ip_incident_id = ?id, ip_version = inc_plan_version existing + 1,
                           ip_model_used = ''fast'', ip_plan = p\<rparr>]\<rparr>)"
  let ?call = "\<lparr>camera_id = ?cam, acknowledged = inc_acknowledged existing,
                 voice_enabled = cam_voice_enabled camera,
                 sms_enabled = cam_sms_enabled camera,
                 escalation_stage = inc_escalation_stage existing,
                 cooldown_contact_s = 5, max_primary_call_attempts = 2,
                 max_escalation_stage = 2\<rparr>"
  obtain g apprvd decisions where
    guarded: "approve_plan (guard w) (time_now e) (actions p) ?call = (g, apprvd, decisions)"
    by (cases "approve_plan (guard w) (time_now e) (actions p) ?call")
  let ?summary = "case inc_summary_text existing of
        None \<Rightarrow> generate_summary e existing
      | Some s \<Rightarrow> if s = [] then generate_summary e existing else s"
  let ?w3 = "log_event ?id ?cam ''PLAN_APPROVED'' (?w2\<lparr>guard := g\<rparr>)"
  let ?w4 = "execute_actions e ?w3 apprvd ?id ?cam (cam_primary_contact camera)
               (cam_backup_contact camera) ?summary"
  let ?w' = "?w4\<lparr>active_replan_tasks := insert ?id (active_replan_tasks ?w4)\<rparr>"
  have rows1: "incidents ?w1 = incidents w"
    by (simp add: log_event_def)
  have g2: "guard ?w2 = guard w"
    by (simp add: log_event_def commit_incident_def)
  have run: "handle_incident e w packet
               = (?w', Inr (Handled ?id (inc_plan_version existing + 1)
                             (Verdict_value (verdict p)) (severity_seed p) (length apprvd)))"
    using one_row [OF assms(1)] one_row [OF assms(2)] one_row' [OF assms(3)] assms(4)
      guarded rows1 g2
    by (simp add: handle_incident_def Let_def log_event_def commit_incident_def)
  have rows3: "incidents ?w3
                 = map (\<lambda>r. if inc_id r = ?id then ?inc' else r) (incidents w)"
    by (simp add: log_event_def commit_incident_def)
  note same = single_row(3) [OF assms(3)]
  have ids: "map inc_id (incidents ?w3) = map inc_id (incidents w)"
    unfolding rows3 by (auto intro!: map_cong simp add: comp_def)
  have frames: "map inc_frames_b64 (incidents ?w3) = map inc_frames_b64 (incidents w)"
    unfolding rows3 using same by (auto intro!: map_cong)
  have versions: "map inc_plan_version (incidents ?w3)
      = map (\<lambda>i. if inc_id i = ?id then inc_plan_version i + 1 else inc_plan_version i)
          (incidents w)"
    unfolding rows3 using same by (auto intro!: map_cong)
  have seeds: "map inc_severity_seed (incidents ?w3)
      = map (\<lambda>i. if inc_id i = ?id then severity_seed p else inc_severity_seed i)
          (incidents w)"
    unfolding rows3 using same by (auto intro!: map_cong)
  have currents: "map inc_severity_current (incidents ?w3)
      = map (\<lambda>i. if inc_id i = ?id then severity_seed p else inc_severity_current i)
          (incidents w)"
    unfolding rows3 using same by (auto intro!: map_cong)
  have plans3: "incident_plans ?w3
      = incident_plans w
        @ [\<lparr>ip_incident_id = ?id, ip_version = inc_plan_version existing + 1,
             ip_model_used = ''fast'', ip_plan = p\<rparr>]"
    and calls3: "planner_calls ?w3 = planner_calls w @ calls"
    and time3: "timeline ?w3
      = timeline w
        @ \<lparr>ev_incident_id = ?id, ev_camera_id = ?cam, ev_kind = ''TRIGGER_RECEIVED''\<rparr>
        # [\<lparr>ev_incident_id = ?id, ev_camera_id = ?cam, ev_kind = ''PLAN_CREATED''\<rparr>,
           \<lparr>ev_incident_id = ?id, ev_camera_id = ?cam, ev_kind = ''PLAN_APPROVED''\<rparr>]"
    by (simp_all add: log_event_def commit_incident_def)
  have f1: "map inc_id (incidents ?w') = map inc_id (incidents w)"
    using execute_actions_frame(1) [of inc_id e ?w3 apprvd] ids by simp
  have f2: "map inc_frames_b64 (incidents ?w') = map inc_frames_b64 (incidents w)"
    using execute_actions_frame(1) [of inc_frames_b64 e ?w3 apprvd] frames by simp
  have f3: "map inc_plan_version (incidents ?w')
      = map (\<lambda>i. if inc_id i = ?id then inc_plan_version i + 1 else inc_plan_version i)
          (incidents w)"
    using execute_actions_frame(1) [of inc_plan_version e ?w3 apprvd] versions by simp
  have f3a: "map inc_severity_seed (incidents ?w')
      = map (\<lambda>i. if inc_id i = ?id then severity_seed p else inc_severity_seed i)
          (incidents w)"
    using execute_actions_frame(1) [of inc_severity_seed e ?w3 apprvd] seeds by simp
  have f3b: "map inc_severity_current (incidents ?w')
      = map (\<lambda>i. if inc_id i = ?id then severity_seed p else inc_severity_current i)
          (incidents w)"
    using execute_actions_frame(1) [of inc_severity_current e ?w3 apprvd] currents by simp
  have f4: "incident_plans ?w'
      = incident_plans w
        @ [\<lparr>ip_incident_id = ?id, ip_version = inc_plan_version existing + 1,
             ip_model_used = ''fast'', ip_plan = p\<rparr>]"
    using execute_actions_frame(4) [of inc_id e ?w3 apprvd] plans3 by simp
  have f5: "planner_calls ?w' = planner_calls w @ calls"
    using execute_actions_frame(5) [of inc_id e ?w3 apprvd] calls3 by simp
  have "\<And>r v. inc_id (r\<lparr>inc_status := v\<rparr>) = inc_id r"
    by simp
  from execute_actions_frame(2) [where P = inc_id and e = e and w = ?w3 and acts = apprvd
      and incident_id = ?id and cam = ?cam and p = "cam_primary_contact camera"
      and b = "cam_backup_contact camera" and s = ?summary, OF this]
  obtain evs where "timeline ?w4 = timeline ?w3 @ evs" ..
  then have f6: "\<exists>evs. timeline ?w'
      = timeline w
        @ \<lparr>ev_incident_id = ?id, ev_camera_id = ?cam, ev_kind = ''TRIGGER_RECEIVED''\<rparr> # evs"
    unfolding time3 by simp
  from run f1 f2 f3 f3a f3b f4 f5 f6 show ?thesis
    by (intro exI [of _ ?w'] exI [of _ "length apprvd"] conjI)
qed

text \<open>What it does when the planner's first call raises: the exception leaves the
  handler after \<open>TRIGGER_RECEIVED\<close> has been logged.\<close>

lemma handle_incident_planner_raises:
  assumes "filter (\<lambda>c. cam_id c = pkt_camera_id packet) (cameras w) = [camera]"
    and "filter (\<lambda>i. inc_camera_id i = pkt_camera_id packet \<and> inc_status i = ''ACTIVE'')
           (incidents w) = [existing]"
    and "plan_incident_with_retry e packet (cam_voice_enabled camera) = Inl err"
  shows "handle_incident e w packet
           = (w\<lparr>timeline := timeline w
                   @ [\<lparr>ev_incident_id = inc_id existing, ev_camera_id = pkt_camera_id packet,
                        ev_kind = ''TRIGGER_RECEIVED''\<rparr>],
                 planner_calls := planner_calls w
                   @ [take 4 (pkt_frames_jpeg_base64 packet)]\<rparr>, Inl err)"
  using one_row [OF assms(1)] one_row [OF assms(2)] assms(3)
  by (simp add: handle_incident_def Let_def log_event_def)

text \<open>
  C4, as the code has it. A fall trigger handled by \<open>handle_incident\<close> on a registered
  camera that has exactly one \<open>ACTIVE\<close> incident (ids being primary keys) creates no
  second incident: whether the handler returns or raises, the rows of the incident table
  keep their ids and their order, and \<open>TRIGGER_RECEIVED\<close> is logged against the
  existing incident. The frames of the trigger are sent to the planner and are not
  attached to the incident: no row's \<open>frames_b64\<close> changes. When the planner's first
  call returns, the handler does not return early but plans for the existing incident,
  raising its \<open>plan_version\<close> by one and storing the plan under that version. When the
  planner's first call raises, the exception leaves the handler: no plan is stored and
  no incident row changes.
\<close>

theorem duplicate_trigger_reuses_incident:
  assumes "filter (\<lambda>c. cam_id c = pkt_camera_id packet) (cameras w) = [camera]"
    and "filter (\<lambda>i. inc_camera_id i = pkt_camera_id packet \<and> inc_status i = ''ACTIVE'')
           (incidents w) = [existing]"
    and "filter (\<lambda>i. inc_id i = inc_id existing) (incidents w) = [existing]"
  shows "\<exists>w' r. handle_incident e w packet = (w', r)
           \<and> map inc_id (incidents w') = map inc_id (incidents w)
           \<and> map inc_frames_b64 (incidents w') = map inc_frames_b64 (incidents w)
           \<and> (\<exists>evs. timeline w'
                 = timeline w
                   @ \<lparr>ev_incident_id = inc_id existing, ev_camera_id = pkt_camera_id packet,
                       ev_kind = ''TRIGGER_RECEIVED''\<rparr> # evs)
           \<and> (case incident_plan e 0 (take 4 (pkt_frames_jpeg_base64 packet)) of
                 Inr raw \<Rightarrow>
                   (\<exists>p calls n.
                      plan_incident_with_retry e packet (cam_voice_enabled camera)
                        = Inr (p, calls)
                      \<and> r = Inr (Handled (inc_id existing) (inc_plan_version existing + 1)
                                   (Verdict_value (verdict p)) (severity_seed p) n)
                      \<and> map inc_plan_version (incidents w')
                          = map (\<lambda>i. if inc_id i = inc_id existing
                                      then inc_plan_version i + 1
                                      else inc_plan_version i) (incidents w)
                      \<and> incident_plans w'
                          = incident_plans w
                            @ [\<lparr>ip_incident_id = inc_id existing,
                                 ip_version = inc_plan_version existing + 1,
                                 ip_model_used = ''fast'', ip_plan = p\<rparr>]
                      \<and> planner_calls w' = planner_calls w @ calls)
               | Inl err \<Rightarrow>
                   r = Inl err
                   \<and> incidents w' = incidents w
                   \<and> incident_plans w' = incident_plans w
                   \<and> planner_calls w'
                       = planner_calls w @ [take 4 (pkt_frames_jpeg_base64 packet)])"
proof (cases "incident_plan e 0 (take 4 (pkt_frames_jpeg_base64 packet))")
  case (Inl err)
  note raised = handle_incident_planner_raises
    [OF assms(1,2) plan_incident_with_retry_raises [OF Inl]]
  show ?thesis
    unfolding raised Inl by simp
next
  case (Inr raw)
  from plan_incident_with_retry_returns [OF Inr] obtain p calls where
    planned: "plan_incident_with_retry e packet (cam_voice_enabled camera) = Inr (p, calls)"
    by blast
  from handle_incident_on_active [OF assms planned] obtain w' n where
    "handle_incident e w packet
       = (w', Inr (Handled (inc_id existing) (inc_plan_version existing + 1)
                     (Verdict_value (verdict p)) (severity_seed p) n))"
    "map inc_id (incidents w') = map inc_id (incidents w)"
    "map inc_frames_b64 (incidents w') = map inc_frames_b64 (incidents w)"
    "map inc_plan_version (incidents w')
       = map (\<lambda>i. if inc_id i = inc_id existing then inc_plan_version i + 1
                   else inc_plan_version i) (incidents w)"
    "incident_plans w'
       = incident_plans w
         @ [\<lparr>ip_incident_id = inc_id existing, ip_version = inc_plan_version existing + 1,
              ip_model_used = ''fast'', ip_plan = p\<rparr>]"
    "planner_calls w' = planner_calls w @ calls"
    "\<exists>evs. timeline w'
       = timeline w
         @ \<lparr>ev_incident_id = inc_id existing, ev_camera_id = pkt_camera_id packet,
             ev_kind = ''TRIGGER_RECEIVED''\<rparr> # evs"
    by blast
  with planned show ?thesis
    unfolding Inr by (intro exI [of _ w'] exI [of _ "Inr (Handled (inc_id existing)
        (inc_plan_version existing + 1) (Verdict_value (verdict p)) (severity_seed p) n)"])
      auto
qed

text \<open>On the sample world the planner answers twice with nothing that parses, and the
  active incident \<open>inc-1\<close> gets the fallback plan as version 4. With a planner whose
  first call raises, the same trigger leaves the exception and an unchanged incident
  table.\<close>

theorem duplicate_trigger_reuses_incident_witness:
  "filter (\<lambda>c. cam_id c = pkt_camera_id sample_packet) (cameras sample_world) = [sample_camera]
   \<and> filter (\<lambda>i. inc_camera_id i = pkt_camera_id sample_packet \<and> inc_status i = ''ACTIVE'')
         (incidents sample_world) = [sample_incident]
   \<and> filter (\<lambda>i. inc_id i = inc_id sample_incident) (incidents sample_world)
       = [sample_incident]
   \<and> (\<exists>w' n. handle_incident sample_env sample_world sample_packet
                  = (w', Inr (Handled ''inc-1'' 4 ''POSSIBLE_FALL'' 3 n))
          \<and> map inc_id (incidents w') = [''inc-1'']
          \<and> map inc_frames_b64 (incidents w') = [Some [''frame-0'']]
          \<and> map inc_plan_version (incidents w') = [4])
   \<and> (\<exists>w'. handle_incident (sample_env\<lparr>incident_plan := \<lambda>n frames. Inl (PlannerCallFailed ''503'')\<rparr>)
                sample_world sample_packet
                = (w', Inl (PlannerCallFailed ''503''))
          \<and> incidents w' = incidents sample_world
          \<and> incident_plans w' = []
          \<and> map ev_kind (timeline w') = [''TRIGGER_RECEIVED''])"
proof -
  have a: "filter (\<lambda>c. cam_id c = pkt_camera_id sample_packet) (cameras sample_world)
             = [sample_camera]"
    and b: "filter (\<lambda>i. inc_camera_id i = pkt_camera_id sample_packet
                          \<and> inc_status i = ''ACTIVE'') (incidents sample_world)
             = [sample_incident]"
    and c: "filter (\<lambda>i. inc_id i = inc_id sample_incident) (incidents sample_world)
             = [sample_incident]"
    by (simp_all add: sample_world_def sample_camera_def sample_incident_def
        sample_packet_def)
  have d: "plan_incident_with_retry sample_env sample_packet (cam_voice_enabled sample_camera)
             = Inr (fallback_plan 0.2 True,
                    [[''frame-1'', ''frame-2'', ''frame-3''], [''frame-1'', ''frame-2'']])"
    by (simp add: plan_incident_with_retry_def Let_def sample_env_def sample_packet_def
        sample_camera_def)
  have first: "incident_plan sample_env 0 (take 4 (pkt_frames_jpeg_base64 sample_packet))
                 = Inr ''I cannot help with that''"
    by (simp add: sample_env_def)
  from duplicate_trigger_reuses_incident [OF a b c, of sample_env] obtain w' r p calls n where
    "handle_incident sample_env sample_world sample_packet = (w', r)"
    "map inc_id (incidents w') = map inc_id (incidents sample_world)"
    "map inc_frames_b64 (incidents w') = map inc_frames_b64 (incidents sample_world)"
    "plan_incident_with_retry sample_env sample_packet (cam_voice_enabled sample_camera)
       = Inr (p, calls)"
    "r = Inr (Handled (inc_id sample_incident) (inc_plan_version sample_incident + 1)
                (Verdict_value (verdict p)) (severity_seed p) n)"
    "map inc_plan_version (incidents w')
       = map (\<lambda>i. if inc_id i = inc_id sample_incident then inc_plan_version i + 1
                   else inc_plan_version i) (incidents sample_world)"
    unfolding first by auto
  with d have "handle_incident sample_env sample_world sample_packet
               = (w', Inr (Handled ''inc-1'' 4 ''POSSIBLE_FALL'' 3 n))
      \<and> map inc_id (incidents w') = [''inc-1'']
      \<and> map inc_frames_b64 (incidents w') = [Some [''frame-0'']]
      \<and> map inc_plan_version (incidents w') = [4]"
    by (simp add: sample_world_def sample_incident_def fallback_plan_def)
  then have returns: "\<exists>w' n. handle_incident sample_env sample_world sample_packet
               = (w', Inr (Handled ''inc-1'' 4 ''POSSIBLE_FALL'' 3 n))
      \<and> map inc_id (incidents w') = [''inc-1'']
      \<and> map inc_frames_b64 (incidents w') = [Some [''frame-0'']]
      \<and> map inc_plan_version (incidents w') = [4]"
    by (intro exI [of _ w'] exI [of _ n])
  let ?e = "sample_env\<lparr>incident_plan := \<lambda>n frames. Inl (PlannerCallFailed ''503'')\<rparr>"
  have first': "incident_plan ?e 0 (take 4 (pkt_frames_jpeg_base64 sample_packet))
                  = Inl (PlannerCallFailed ''503'')"
    by simp
  from duplicate_trigger_reuses_incident [OF a b c, of ?e] obtain w'' r' evs where
    "handle_incident ?e sample_world sample_packet = (w'', r')"
    "r' = Inl (PlannerCallFailed ''503'')"
    "incidents w'' = incidents sample_world"
    "incident_plans w'' = incident_plans sample_world"
    "timeline w''
       = timeline sample_world
         @ \<lparr>ev_incident_id = inc_id sample_incident,
             ev_camera_id = pkt_camera_id sample_packet,
             ev_kind = ''TRIGGER_RECEIVED''\<rparr> # evs"
    unfolding first' by auto
  moreover have "handle_incident ?e sample_world sample_packet
      = (sample_world\<lparr>timeline := timeline sample_world
            @ [\<lparr>ev_incident_id = inc_id sample_incident,
                 ev_camera_id = pkt_camera_id sample_packet,
                 ev_kind = ''TRIGGER_RECEIVED''\<rparr>],
          planner_calls := planner_calls sample_world
            @ [take 4 (pkt_frames_jpeg_base64 sample_packet)]\<rparr>,
         Inl (PlannerCallFailed ''503''))"
    by (rule handle_incident_planner_raises [OF a b])
       (simp add: plan_incident_with_retry_def)
  ultimately have raises: "\<exists>w'. handle_incident ?e sample_world sample_packet
                = (w', Inl (PlannerCallFailed ''503''))
          \<and> incidents w' = incidents sample_world
          \<and> incident_plans w' = []
          \<and> map ev_kind (timeline w') = [''TRIGGER_RECEIVED'']"
    by (intro exI [of _ w'']) (auto simp add: sample_world_def)
  from a b c returns raises show ?thesis
    by (simp only: simp_thms)
qed

text \<open>The claim as the specification states it fails on the sample world: the active
  incident had severity seed 4 and current severity 5 and one stored frame; after a
  duplicate trigger with three new frames and a planner that gives no usable plan, both
  severities are 3 (the fallback plan's seed) and the stored frames are the old ones.\<close>

theorem duplicate_trigger_counterexample:
  "\<exists>w' r. handle_incident sample_env sample_world sample_packet = (w', Inr r)
      \<and> map inc_severity_seed (incidents sample_world) = [4]
      \<and> map inc_severity_current (incidents sample_world) = [5]
      \<and> map inc_frames_b64 (incidents sample_world) = [Some [''frame-0'']]
      \<and> pkt_frames_jpeg_base64 sample_packet = [''frame-1'', ''frame-2'', ''frame-3'']
      \<and> map inc_id (incidents w') = [''inc-1'']
      \<and> map inc_severity_seed (incidents w') = [3]
      \<and> map inc_severity_current (incidents w') = [3]
      \<and> map inc_frames_b64 (incidents w') = [Some [''frame-0'']]"
proof -
  have a: "filter (\<lambda>c. cam_id c = pkt_camera_id sample_packet) (cameras sample_world)
             = [sample_camera]"
    and b: "filter (\<lambda>i. inc_camera_id i = pkt_camera_id sample_packet
                          \<and> inc_status i = ''ACTIVE'') (incidents sample_world)
             = [sample_incident]"
    and c: "filter (\<lambda>i. inc_id i = inc_id sample_incident) (incidents sample_world)
             = [sample_incident]"
    by (simp_all add: sample_world_def sample_camera_def sample_incident_def
        sample_packet_def)
  have d: "plan_incident_with_retry sample_env sample_packet (cam_voice_enabled sample_camera)
             = Inr (fallback_plan 0.2 True,
                    [[''frame-1'', ''frame-2'', ''frame-3''], [''frame-1'', ''frame-2'']])"
    by (simp add: plan_incident_with_retry_def Let_def sample_env_def sample_packet_def
        sample_camera_def)
  from handle_incident_on_active [OF a b c d] obtain w' n where
    "handle_incident sample_env sample_world sample_packet
       = (w', Inr (Handled (inc_id sample_incident) (inc_plan_version sample_incident + 1)
                    (Verdict_value (verdict (fallback_plan 0.2 True)))
                    (severity_seed (fallback_plan 0.2 True)) n))"
    "map inc_id (incidents w') = map inc_id (incidents sample_world)"
    "map inc_frames_b64 (incidents w') = map inc_frames_b64 (incidents sample_world)"
    "map inc_severity_seed (incidents w')
       = map (\<lambda>i. if inc_id i = inc_id sample_incident
                   then severity_seed (fallback_plan 0.2 True) else inc_severity_seed i)
           (incidents sample_world)"
    "map inc_severity_current (incidents w')
       = map (\<lambda>i. if inc_id i = inc_id sample_incident
                   then severity_seed (fallback_plan 0.2 True) else inc_severity_current i)
           (incidents sample_world)"
    by blast
  then show ?thesis
    by (intro exI [of _ w'] exI)
       (simp add: sample_world_def sample_incident_def sample_packet_def fallback_plan_def)
qed
subsection \<open>Idle gate and config patches\<close>

lemma scalar_one_or_none_Some:
  "scalar_one_or_none rows = Inr (Some x) \<longleftrightarrow> rows = [x]"
  by (auto simp add: scalar_one_or_none_def split: list.splits)

text \<open>When \<open>is_camera_idle\<close> answers \<open>True\<close> and when it raises.\<close>

lemma is_camera_idle_True:
  "(is_camera_idle w cid = Inr True)
     = ((\<exists>camera. filter (\<lambda>c. cam_id c = cid) (cameras w) = [camera]
                   \<and> cam_risk_score camera \<le> 0.3)
        \<and> filter (\<lambda>i. inc_camera_id i = cid \<and> inc_status i = ''ACTIVE'') (incidents w) = [])"
  by (auto simp add: is_camera_idle_def scalar_one_or_none_def split: list.splits)

lemma is_camera_idle_raises:
  "(is_camera_idle w cid = Inl err)
     = (err = MultipleResultsFound
        \<and> (2 \<le> length (filter (\<lambda>c. cam_id c = cid) (cameras w))
           \<or> (\<exists>camera. filter (\<lambda>c. cam_id c = cid) (cameras w) = [camera]
                         \<and> cam_risk_score camera \<le> 0.3)
             \<and> 2 \<le> length (filter (\<lambda>i. inc_camera_id i = cid \<and> inc_status i = ''ACTIVE'')
                               (incidents w))))"
  by (auto simp add: is_camera_idle_def scalar_one_or_none_def split: list.splits)

lemma restrict_allowed_empty:
  "(m |` set allowed_keys = Map.empty) = (\<not> (\<exists>k \<in> set allowed_keys. m k \<noteq> None))"
proof
  assume "m |` set allowed_keys = Map.empty"
  then have "(m |` set allowed_keys) k = None" for k
    by simp
  then have "m k = None" if "k \<in> set allowed_keys" for k
    using that by (metis restrict_in)
  then show "\<not> (\<exists>k \<in> set allowed_keys. m k \<noteq> None)"
    by auto
next
  assume "\<not> (\<exists>k \<in> set allowed_keys. m k \<noteq> None)"
  then show "m |` set allowed_keys = Map.empty"
    by (auto simp add: restrict_map_def)
qed

lemma merged_config_eq:
  "merged_config s c = config_or_empty c ++ (sg_config_json s |` set allowed_keys)"
  by (rule ext) (auto simp add: merged_config_def map_add_def restrict_map_def
      split: option.splits)

text \<open>The patch a suggestion makes.\<close>

lemma apply_suggestion_applies:
  assumes "sg_camera_id s \<noteq> []"
    and "is_camera_idle w (sg_camera_id s) = Inr True"
    and "sg_config_json s |` set allowed_keys \<noteq> Map.empty"
  shows "apply_suggestion w s = Inr (patched_world w s)"
proof -
  let ?cid = "sg_camera_id s"
  let ?filtered = "sg_config_json s |` set allowed_keys"
  from assms(2) obtain camera where
    one: "filter (\<lambda>c. cam_id c = ?cid) (cameras w) = [camera]"
    by (auto simp add: is_camera_idle_True)
  then have found:
    "scalar_one_or_none (filter (\<lambda>c. cam_id c = ?cid) (cameras w)) = Inr (Some camera)"
    by (simp add: scalar_one_or_none_Some)
  from one have "camera \<in> set (filter (\<lambda>c. cam_id c = ?cid) (cameras w))"
    by simp
  then have cid: "cam_id camera = ?cid"
    by simp
  have same: "r = camera" if "r \<in> set (cameras w)" "cam_id r = ?cid" for r
  proof -
    from that have "r \<in> set (filter (\<lambda>c. cam_id c = ?cid) (cameras w))" by simp
    with one show ?thesis by simp
  qed
  from assms(3) have nonempty: "sg_config_json s \<noteq> Map.empty"
    by auto
  let ?camera' = "camera\<lparr>cam_config := Some (config_or_empty camera ++ ?filtered)\<rparr>"
  let ?w1 = "log_event ''system'' ?cid ''CONFIG_SUGGESTION_APPLIED''
               ((commit_camera ?camera' w)
                  \<lparr>config_updates := config_updates w
                     @ [\<lparr>cu_camera_id = ?cid, cu_config_json = ?filtered,
                          cu_applied = True\<rparr>]\<rparr>)"
  have run: "apply_suggestion w s = Inr ?w1"
    using assms found nonempty
    by (simp add: apply_suggestion_def Let_def commit_camera_def log_event_def)
  have "map (\<lambda>r. if cam_id r = cam_id ?camera' then ?camera' else r) (cameras w)
          = map (\<lambda>c. if cam_id c = ?cid then c\<lparr>cam_config := Some (merged_config s c)\<rparr>
                      else c) (cameras w)"
    using cid same by (intro map_cong) (auto simp add: merged_config_eq)
  then have "?w1 = patched_world w s"
    by (simp add: commit_camera_def log_event_def patched_world_def)
  with run show ?thesis
    by simp
qed

text \<open>One pass of the loop, against that description.\<close>

lemma apply_suggestion_reference:
  "apply_suggestion w s
     = (if sg_camera_id s = [] then Inr w
        else case is_camera_idle w (sg_camera_id s) of
               Inl err \<Rightarrow> Inl err
             | Inr idle \<Rightarrow>
                 Inr (if idle \<and> (\<exists>k \<in> set allowed_keys. sg_config_json s k \<noteq> None)
                      then patched_world w s else w))"
proof (cases "sg_camera_id s = []")
  case True
  then show ?thesis
    by (simp add: apply_suggestion_def)
next
  case named: False
  show ?thesis
  proof (cases "is_camera_idle w (sg_camera_id s)")
    case (Inl err)
    with named show ?thesis
      by (simp add: apply_suggestion_def)
  next
    case (Inr idle)
    show ?thesis
    proof (cases "idle \<and> (\<exists>k \<in> set allowed_keys. sg_config_json s k \<noteq> None)")
      case True
      with Inr have "is_camera_idle w (sg_camera_id s) = Inr True"
        and "sg_config_json s |` set allowed_keys \<noteq> Map.empty"
        by (simp_all add: restrict_allowed_empty)
      from apply_suggestion_applies [OF named this] have "apply_suggestion w s
          = Inr (patched_world w s)" .
      moreover from True
      have "(if idle \<and> (\<exists>k \<in> set allowed_keys. sg_config_json s k \<noteq> None)
             then patched_world w s else w) = patched_world w s"
        by (simp only: if_True simp_thms)
      ultimately show ?thesis
        using named Inr by (simp only: if_False sum.case)
    next
      case False
      then have "\<not> idle \<or> sg_config_json s |` set allowed_keys = Map.empty"
        by (simp add: restrict_allowed_empty)
      with named Inr have "apply_suggestion w s = Inr w"
        by (auto simp add: apply_suggestion_def Let_def)
      moreover from False
      have "(if idle \<and> (\<exists>k \<in> set allowed_keys. sg_config_json s k \<noteq> None)
             then patched_world w s else w) = w"
        by (simp only: if_False)
      ultimately show ?thesis
        using named Inr by (simp only: if_False sum.case)
    qed
  qed
qed

lemma apply_config_suggestions_reference:
  "apply_config_suggestions w suggestions = suggestions_reference w suggestions"
proof (induction suggestions arbitrary: w)
  case Nil
  show ?case by simp
next
  case (Cons s rest)
  show ?case
  proof (cases "sg_camera_id s = []")
    case True
    then show ?thesis
      by (simp add: apply_suggestion_reference [of w s] Cons.IH)
  next
    case named: False
    show ?thesis
    proof (cases "is_camera_idle w (sg_camera_id s)")
      case (Inl err)
      with named show ?thesis
        by (simp add: apply_suggestion_reference [of w s])
    next
      case (Inr idle)
      show ?thesis
      proof (cases "idle \<and> (\<exists>k \<in> set allowed_keys. sg_config_json s k \<noteq> None)")
        case True
        with named Inr have "apply_suggestion w s = Inr (patched_world w s)"
          by (simp only: apply_suggestion_reference [of w s] if_False if_True sum.case simp_thms)
        moreover from named Inr True
        have "suggestions_reference w (s # rest)
                = suggestions_reference (patched_world w s) rest"
          by (simp only: suggestions_reference.simps if_False if_True sum.case simp_thms)
        ultimately show ?thesis
          by (simp add: Cons.IH)
      next
        case False
        with named Inr have "apply_suggestion w s = Inr w"
          by (simp only: apply_suggestion_reference [of w s] if_False sum.case)
        moreover from named Inr False
        have "suggestions_reference w (s # rest) = suggestions_reference w rest"
          by (simp only: suggestions_reference.simps if_False sum.case)
        ultimately show ?thesis
          by (simp add: Cons.IH)
      qed
    qed
  qed
qed

text \<open>
  C8, as the code has it. \<open>apply_config_suggestions\<close> takes the suggestions in order
  and changes the store only by applying patches. A suggestion is applied exactly when
  its camera id is not empty, its camera is idle (\<open>is_camera_idle\<close> answers \<open>True\<close>:
  one camera row has the id, its risk score is at most 0.3 and no \<open>ACTIVE\<close> incident is
  on that camera) and its patch has at least one of the five keys of the allow-list.
  Applying merges into \<open>camera.config\<close> exactly the suggested keys among those five,
  ignores every other key and leaves the keys of \<open>camera.config\<close> that are not in the
  patch unchanged; it adds a \<open>ConfigUpdate\<close> row with the allowed part of the patch and
  logs \<open>CONFIG_SUGGESTION_APPLIED\<close>. A patch with none of the five keys, and a patch for
  a camera that is not idle, is not applied at all: the store stays as it is. When
  \<open>is_camera_idle\<close> raises (the lookup of the camera, or of the \<open>ACTIVE\<close> incident of a
  low-risk camera, finds several rows), the run ends there and the patches applied before
  stay. The allow-list has five of the six recognized keys: \<open>check_interval_s\<close> is not
  in it and is ignored like any unknown key.
\<close>

theorem config_patch_gated_and_filtered:
  "apply_config_suggestions w suggestions = suggestions_reference w suggestions
   \<and> (is_camera_idle w cid = Inr True)
       = ((\<exists>camera. filter (\<lambda>c. cam_id c = cid) (cameras w) = [camera]
                     \<and> cam_risk_score camera \<le> 0.3)
          \<and> filter (\<lambda>i. inc_camera_id i = cid \<and> inc_status i = ''ACTIVE'') (incidents w)
              = [])
   \<and> (is_camera_idle w cid = Inl err)
       = (err = MultipleResultsFound
          \<and> (2 \<le> length (filter (\<lambda>c. cam_id c = cid) (cameras w))
             \<or> (\<exists>camera. filter (\<lambda>c. cam_id c = cid) (cameras w) = [camera]
                           \<and> cam_risk_score camera \<le> 0.3)
               \<and> 2 \<le> length (filter (\<lambda>i. inc_camera_id i = cid \<and> inc_status i = ''ACTIVE'')
                                 (incidents w))))
   \<and> set allowed_keys = set recognized_config_keys - {''check_interval_s''}"
proof (intro conjI)
  show "apply_config_suggestions w suggestions = suggestions_reference w suggestions"
    by (rule apply_config_suggestions_reference)
  show "(is_camera_idle w cid = Inr True)
       = ((\<exists>camera. filter (\<lambda>c. cam_id c = cid) (cameras w) = [camera]
                     \<and> cam_risk_score camera \<le> 0.3)
          \<and> filter (\<lambda>i. inc_camera_id i = cid \<and> inc_status i = ''ACTIVE'') (incidents w)
              = [])"
    by (rule is_camera_idle_True)
  show "(is_camera_idle w cid = Inl err)
       = (err = MultipleResultsFound
          \<and> (2 \<le> length (filter (\<lambda>c. cam_id c = cid) (cameras w))
             \<or> (\<exists>camera. filter (\<lambda>c. cam_id c = cid) (cameras w) = [camera]
                           \<and> cam_risk_score camera \<le> 0.3)
               \<and> 2 \<le> length (filter (\<lambda>i. inc_camera_id i = cid \<and> inc_status i = ''ACTIVE'')
                                 (incidents w))))"
    by (rule is_camera_idle_raises)
  show "set allowed_keys = set recognized_config_keys - {''check_interval_s''}"
    by (auto simp add: allowed_keys_def recognized_config_keys_def)
qed

lemma closed_world_idle: "is_camera_idle closed_world ''cam-1'' = Inr True"
  by (simp add: is_camera_idle_def scalar_one_or_none_def closed_world_def sample_world_def
      sample_camera_def closed_incident_def sample_incident_def)

lemma sample_world_busy: "is_camera_idle sample_world ''cam-1'' = Inr False"
  by (simp add: is_camera_idle_def scalar_one_or_none_def sample_world_def
      sample_camera_def sample_incident_def)

lemma sample_suggestion_facts:
  "sg_camera_id sample_suggestion = ''cam-1''"
  "sg_config_json sample_suggestion |` set allowed_keys = [''escalation_delay_s'' \<mapsto> JInt 90]"
  "sg_config_json sample_suggestion ''check_interval_s'' = Some (JInt 5)"
  "\<exists>k \<in> set allowed_keys. sg_config_json sample_suggestion k \<noteq> None"
  by (auto simp add: sample_suggestion_def allowed_keys_def restrict_map_def)

lemma unknown_suggestion_facts:
  "sg_camera_id unknown_suggestion = ''cam-1''"
  "\<not> (\<exists>k \<in> set allowed_keys. sg_config_json unknown_suggestion k \<noteq> None)"
  by (auto simp add: unknown_suggestion_def allowed_keys_def)

lemma closed_world_cameras: "cameras closed_world = [sample_camera]"
  by (simp add: closed_world_def sample_world_def)

lemma patched_closed_world:
  "map (\<lambda>c. config_or_empty c ''escalation_delay_s'')
     (cameras (patched_world closed_world sample_suggestion)) = [Some (JInt 90)]"
  "map (\<lambda>c. config_or_empty c ''check_interval_s'')
     (cameras (patched_world closed_world sample_suggestion)) = [None]"
  "map (\<lambda>c. config_or_empty c ''colour'')
     (cameras (patched_world closed_world sample_suggestion)) = [None]"
  by (simp_all add: patched_world_def closed_world_cameras sample_camera_def
      merged_config_def config_or_empty_def sample_suggestion_def allowed_keys_def)

lemma two_camera_world_idle:
  "is_camera_idle two_camera_world ''cam-1'' = Inr True"
  "is_camera_idle (patched_world two_camera_world sample_suggestion) ''cam-2''
     = Inl MultipleResultsFound"
  by (simp_all add: is_camera_idle_def scalar_one_or_none_def two_camera_world_def
      patched_world_def closed_world_def sample_world_def sample_camera_def
      closed_incident_def sample_incident_def sample_suggestion_def)

text \<open>The sample camera is idle once its incident is closed. A patch with no allowed
  key leaves the store as it is; the next patch sets \<open>escalation_delay_s\<close> to 90, and
  its \<open>check_interval_s\<close> and its unknown key do not reach the camera's config. While
  the incident is \<open>ACTIVE\<close> the same patch is not applied. In the world with two
  cameras the patch for \<open>cam-1\<close> is applied and stays when the idle check of
  \<open>cam-2\<close> raises.\<close>

theorem config_patch_gated_and_filtered_witness:
  "apply_config_suggestions closed_world [unknown_suggestion] = (closed_world, None)
   \<and> apply_config_suggestions closed_world [unknown_suggestion, sample_suggestion]
       = (patched_world closed_world sample_suggestion, None)
   \<and> map (\<lambda>c. config_or_empty c ''escalation_delay_s'')
       (cameras (patched_world closed_world sample_suggestion)) = [Some (JInt 90)]
   \<and> map (\<lambda>c. config_or_empty c ''check_interval_s'')
       (cameras (patched_world closed_world sample_suggestion)) = [None]
   \<and> map (\<lambda>c. config_or_empty c ''colour'')
       (cameras (patched_world closed_world sample_suggestion)) = [None]
   \<and> apply_config_suggestions sample_world [sample_suggestion] = (sample_world, None)
   \<and> apply_config_suggestions two_camera_world [sample_suggestion, second_suggestion]
       = (patched_world two_camera_world sample_suggestion, Some MultipleResultsFound)"
proof -
  note run = config_patch_gated_and_filtered [THEN conjunct1]
  have "apply_config_suggestions closed_world [unknown_suggestion] = (closed_world, None)"
    unfolding run [of closed_world "[unknown_suggestion]"]
    using closed_world_idle unknown_suggestion_facts by simp
  moreover have "apply_config_suggestions closed_world [unknown_suggestion, sample_suggestion]
       = (patched_world closed_world sample_suggestion, None)"
    unfolding run [of closed_world "[unknown_suggestion, sample_suggestion]"]
    using closed_world_idle unknown_suggestion_facts sample_suggestion_facts by simp
  moreover have "apply_config_suggestions sample_world [sample_suggestion]
       = (sample_world, None)"
    unfolding run [of sample_world "[sample_suggestion]"]
    using sample_world_busy sample_suggestion_facts by simp
  moreover have "apply_config_suggestions two_camera_world
         [sample_suggestion, second_suggestion]
       = (patched_world two_camera_world sample_suggestion, Some MultipleResultsFound)"
    unfolding run [of two_camera_world "[sample_suggestion, second_suggestion]"]
    using two_camera_world_idle sample_suggestion_facts
    by (simp add: second_suggestion_def)
  ultimately show ?thesis
    using patched_closed_world by simp
qed

text \<open>The claim as the specification states it (all six recognized keys are merged)
  fails for \<open>check_interval_s\<close>: the camera is idle, the patch carries
  \<open>check_interval_s = 5\<close>, the patch is applied, and the camera's config has no
  \<open>check_interval_s\<close> afterwards.\<close>

theorem config_patch_check_interval_counterexample:
  "\<exists>w1. apply_config_suggestions closed_world [sample_suggestion] = (w1, None)
      \<and> is_camera_idle closed_world ''cam-1'' = Inr True
      \<and> ''check_interval_s'' \<in> set recognized_config_keys
      \<and> sg_config_json sample_suggestion ''check_interval_s'' = Some (JInt 5)
      \<and> map (\<lambda>c. config_or_empty c ''escalation_delay_s'') (cameras w1) = [Some (JInt 90)]
      \<and> map (\<lambda>c. config_or_empty c ''check_interval_s'') (cameras w1) = [None]"
proof -
  have "apply_config_suggestions closed_world [sample_suggestion]
          = (patched_world closed_world sample_suggestion, None)"
    unfolding apply_config_suggestions_reference
    using closed_world_idle sample_suggestion_facts by simp
  with closed_world_idle patched_closed_world show ?thesis
    by (intro exI [of _ "patched_world closed_world sample_suggestion"])
       (simp add: sample_suggestion_facts recognized_config_keys_def)
qed

end
